theory Spec2Isabelle
  imports Complex_Main "HOL-Library.Multiset"
begin

section \<open>Data model\<close>

text \<open>
  The combo chart of \<^verbatim>\<open>src/js/comboChart.js\<close> draws two bar series and a line over one
  categorical dimension. JavaScript numbers are modelled as reals, without rounding
  except in \<^verbatim>\<open>createScales\<close> (section Scales); the one non-finite value the scale code can produce, \<^verbatim>\<open>NaN\<close> (from
  \<^verbatim>\<open>undefined * 1.1\<close> on an empty row array), is the constructor \<open>NaN\<close> of \<open>num\<close>.
  A field that may be \<^verbatim>\<open>null\<close> or \<^verbatim>\<open>undefined\<close> is an \<open>option\<close>.
\<close>

record row =
  dimension :: string
  bar1Value :: real
  bar2Value :: real
  lineValue :: real
  bar1Formatted :: string
  bar2Formatted :: string
  lineFormatted :: string

record fieldNameMap =
  fn_dimension :: string
  fn_bar1 :: string
  fn_bar2 :: string
  fn_line :: string

text \<open>The configuration tree, restricted to the fields the modelled functions read.\<close>

record xAxisConfig =
  x_sort :: string
  x_rotation :: real
  x_showTitle :: "bool option"
  x_title :: string

record yAxisConfig =
  y_min :: "real option"
  y_max :: "real option"
  y_includeZero :: "bool option"
  y_showTitle :: "bool option"

record labelFont =
  lf_offsetX :: "real option"
  lf_offsetY :: "real option"

record barLabelsConfig =
  bl_show :: bool
  bl_position :: string
  bl_offsetX :: "real option"
  bl_offsetY :: "real option"

record legendConfig =
  lg_show :: bool
  lg_position :: string

record configTree =
  forceAnimationPreview :: bool
  animation_enabled :: "bool option"
  title_show :: bool
  xAxis :: xAxisConfig
  yAxisLeft :: yAxisConfig
  yAxisRight :: yAxisConfig
  axisMode :: string
  syncDualAxis :: bool
  barStyle :: string
  barPadding :: real
  barGap :: "real option"
  barWidth :: "real option"
  line_verticalPosition :: string
  barLabels :: barLabelsConfig
  barLabelFont :: "labelFont option"
  bar1LabelFont :: "labelFont option"
  bar2LabelFont :: "labelFont option"
  legend :: legendConfig

section \<open>Bar geometry: renderBars\<close>

text \<open>
  \<^verbatim>\<open>renderBars\<close> appends one rectangle per row and series. With animation enabled the
  rectangle starts collapsed on the baseline and a transition moves \<^verbatim>\<open>y\<close> and
  \<^verbatim>\<open>height\<close> to their targets; without animation the targets are set at once. A
  \<open>bar\<close> holds both the attributes set before the transition and the final ones.
  The band scale and the left linear scale are d3 objects: \<open>xs\<close> stands for
  \<^verbatim>\<open>this.xScale(d.dimension)\<close>, \<open>bandWidth\<close> for \<^verbatim>\<open>this.xScale.bandwidth()\<close> and
  \<open>ys\<close> for \<^verbatim>\<open>this.yScaleLeft(v)\<close>.
\<close>

record rect =
  r_x :: real
  r_y :: real
  r_width :: real
  r_height :: real

record bar =
  b_start :: rect
  b_final :: rect

definition anim_enabled :: "configTree \<Rightarrow> bool" where
  "anim_enabled cfg = (animation_enabled cfg \<noteq> Some False)"

definition barGapOf :: "configTree \<Rightarrow> real" where
  "barGapOf cfg = (case barGap cfg of Some g \<Rightarrow> g | None \<Rightarrow> 4)"

definition barWidthPercent :: "configTree \<Rightarrow> real" where
  "barWidthPercent cfg = (case barWidth cfg of Some w \<Rightarrow> w | None \<Rightarrow> 100)"

definition autoBarWidth :: "configTree \<Rightarrow> real \<Rightarrow> real" where
  "autoBarWidth cfg bandWidth = (bandWidth - barGapOf cfg) / 2"

definition groupedBarWidth :: "configTree \<Rightarrow> real \<Rightarrow> real" where
  "groupedBarWidth cfg bandWidth = autoBarWidth cfg bandWidth * (barWidthPercent cfg / 100)"

definition groupedGroupOffset :: "configTree \<Rightarrow> real \<Rightarrow> real" where
  "groupedGroupOffset cfg bandWidth =
     (let groupWidth = min (groupedBarWidth cfg bandWidth * 2 + barGapOf cfg) bandWidth
      in (bandWidth - groupWidth) / 2)"

definition stackedBarWidth :: "configTree \<Rightarrow> real \<Rightarrow> real" where
  "stackedBarWidth cfg bandWidth = (bandWidth - 4) * (barWidthPercent cfg / 100)"

definition stackOffset :: "configTree \<Rightarrow> real \<Rightarrow> real" where
  "stackOffset cfg bandWidth = (bandWidth - stackedBarWidth cfg bandWidth) / 2"

text \<open>One animated (or directly placed) rectangle: \<open>y0\<close> is the \<^verbatim>\<open>y\<close> set before the transition.\<close>

definition mkBar :: "bool \<Rightarrow> real \<Rightarrow> real \<Rightarrow> real \<Rightarrow> real \<Rightarrow> real \<Rightarrow> bar" where
  "mkBar anim x w y0 y h =
     (let final = \<lparr>r_x = x, r_y = y, r_width = w, r_height = h\<rparr>
      in \<lparr>b_start = (if anim then \<lparr>r_x = x, r_y = y0, r_width = w, r_height = 0\<rparr> else final),
          b_final = final\<rparr>)"

definition bars1 :: "configTree \<Rightarrow> (string \<Rightarrow> real) \<Rightarrow> real \<Rightarrow> (real \<Rightarrow> real) \<Rightarrow> real \<Rightarrow> row list \<Rightarrow> bar list" where
  "bars1 cfg xs bandWidth ys height rows =
     (if barStyle cfg = ''grouped'' then
        map (\<lambda>d. mkBar (anim_enabled cfg)
                   (xs (dimension d) + groupedGroupOffset cfg bandWidth)
                   (groupedBarWidth cfg bandWidth)
                   height (ys (bar1Value d)) (height - ys (bar1Value d))) rows
      else
        map (\<lambda>d. mkBar (anim_enabled cfg)
                   (xs (dimension d) + stackOffset cfg bandWidth)
                   (stackedBarWidth cfg bandWidth)
                   height (ys (bar1Value d)) (height - ys (bar1Value d))) rows)"

definition bars2 :: "configTree \<Rightarrow> (string \<Rightarrow> real) \<Rightarrow> real \<Rightarrow> (real \<Rightarrow> real) \<Rightarrow> real \<Rightarrow> row list \<Rightarrow> bar list" where
  "bars2 cfg xs bandWidth ys height rows =
     (if barStyle cfg = ''grouped'' then
        map (\<lambda>d. mkBar (anim_enabled cfg)
                   (xs (dimension d) + groupedGroupOffset cfg bandWidth
                      + groupedBarWidth cfg bandWidth + barGapOf cfg)
                   (groupedBarWidth cfg bandWidth)
                   height (ys (bar2Value d)) (height - ys (bar2Value d))) rows
      else
        map (\<lambda>d. mkBar (anim_enabled cfg)
                   (xs (dimension d) + stackOffset cfg bandWidth)
                   (stackedBarWidth cfg bandWidth)
                   (ys (bar1Value d))
                   (ys (bar1Value d + bar2Value d))
                   (ys (bar1Value d) - ys (bar1Value d + bar2Value d))) rows)"

definition renderBars :: "configTree \<Rightarrow> (string \<Rightarrow> real) \<Rightarrow> real \<Rightarrow> (real \<Rightarrow> real) \<Rightarrow> real \<Rightarrow> row list \<Rightarrow> bar list \<times> bar list" where
  "renderBars cfg xs bandWidth ys height rows =
     (bars1 cfg xs bandWidth ys height rows, bars2 cfg xs bandWidth ys height rows)"

section \<open>Bar labels: renderLabels\<close>

text \<open>
  \<^verbatim>\<open>a || b\<close> on numbers takes \<open>b\<close> when \<open>a\<close> is \<^verbatim>\<open>undefined\<close> or \<open>0\<close>.
\<close>

definition num_or :: "real option \<Rightarrow> real \<Rightarrow> real" where
  "num_or a b = (case a of Some v \<Rightarrow> (if v \<noteq> 0 then v else b) | None \<Rightarrow> b)"

definition emptyFont :: labelFont where
  "emptyFont = \<lparr>lf_offsetX = None, lf_offsetY = None\<rparr>"

definition font_or :: "labelFont option \<Rightarrow> labelFont option \<Rightarrow> labelFont" where
  "font_or a b = (case a of Some f \<Rightarrow> f | None \<Rightarrow> (case b of Some f \<Rightarrow> f | None \<Rightarrow> emptyFont))"

definition labelBarWidth :: "configTree \<Rightarrow> real \<Rightarrow> real" where
  "labelBarWidth cfg bandWidth =
     (let configBarWidth = num_or (barWidth cfg) 0;
          autoW = (if barStyle cfg = ''grouped'' then (bandWidth - barGapOf cfg) / 2 else bandWidth - 4)
      in if configBarWidth > 0 then min configBarWidth autoW else autoW)"

definition bar1LabelX :: "configTree \<Rightarrow> (string \<Rightarrow> real) \<Rightarrow> real \<Rightarrow> row \<Rightarrow> real" where
  "bar1LabelX cfg xs bandWidth d =
     (if barStyle cfg = ''grouped'' then
        (let bw = labelBarWidth cfg bandWidth;
             groupWidth = bw * 2 + barGapOf cfg;
             groupOffset = (bandWidth - groupWidth) / 2
         in xs (dimension d) + groupOffset + bw / 2)
      else xs (dimension d) + bandWidth / 2)"

definition bar2LabelX :: "configTree \<Rightarrow> (string \<Rightarrow> real) \<Rightarrow> real \<Rightarrow> row \<Rightarrow> real" where
  "bar2LabelX cfg xs bandWidth d =
     (if barStyle cfg = ''grouped'' then
        (let bw = labelBarWidth cfg bandWidth;
             groupWidth = bw * 2 + barGapOf cfg;
             groupOffset = (bandWidth - groupWidth) / 2
         in xs (dimension d) + groupOffset + bw + barGapOf cfg + bw / 2)
      else xs (dimension d) + bandWidth / 2)"

definition labelBaseY :: "configTree \<Rightarrow> real \<Rightarrow> real \<Rightarrow> real" where
  "labelBaseY cfg height y =
     (if bl_position (barLabels cfg) = ''top'' then y - 5
      else if bl_position (barLabels cfg) = ''inside'' then y + 15
      else y + (height - y) / 2)"

record label =
  l_x :: real
  l_y :: real

definition barLabels1 :: "configTree \<Rightarrow> (string \<Rightarrow> real) \<Rightarrow> real \<Rightarrow> (real \<Rightarrow> real) \<Rightarrow> real \<Rightarrow> row list \<Rightarrow> label list" where
  "barLabels1 cfg xs bandWidth ys height rows =
     (if bl_show (barLabels cfg) then
        (let font = font_or (bar1LabelFont cfg) (barLabelFont cfg);
             offX = num_or (lf_offsetX font) (num_or (bl_offsetX (barLabels cfg)) 0);
             offY = num_or (lf_offsetY font) (num_or (bl_offsetY (barLabels cfg)) 0)
         in map (\<lambda>d. \<lparr>l_x = bar1LabelX cfg xs bandWidth d + offX,
                        l_y = labelBaseY cfg height (ys (bar1Value d)) + offY\<rparr>) rows)
      else [])"

definition barLabels2 :: "configTree \<Rightarrow> (string \<Rightarrow> real) \<Rightarrow> real \<Rightarrow> (real \<Rightarrow> real) \<Rightarrow> real \<Rightarrow> row list \<Rightarrow> label list" where
  "barLabels2 cfg xs bandWidth ys height rows =
     (if bl_show (barLabels cfg) then
        (let font = font_or (bar2LabelFont cfg) (barLabelFont cfg);
             offX = num_or (lf_offsetX font) (num_or (bl_offsetX (barLabels cfg)) 0);
             offY = num_or (lf_offsetY font) (num_or (bl_offsetY (barLabels cfg)) 0)
         in map (\<lambda>d. \<lparr>l_x = bar2LabelX cfg xs bandWidth d + offX,
                        l_y = labelBaseY cfg height
                                (if barStyle cfg = ''grouped'' then ys (bar2Value d)
                                 else ys (bar1Value d + bar2Value d)) + offY\<rparr>) rows)
      else [])"

text \<open>The horizontal centre of a drawn rectangle.\<close>

definition rect_centre :: "rect \<Rightarrow> real" where
  "rect_centre r = r_x r + r_width r / 2"

section \<open>Sort resolution\<close>

text \<open>
  \<^verbatim>\<open>createScales\<close> sorts a copy of the row array and builds the scales. The engine's
  \<^verbatim>\<open>new Date(str)\<close> and \<^verbatim>\<open>String.prototype.localeCompare\<close>, and d3's \<^verbatim>\<open>nice()\<close>, are
  not code of the repository; they are the three fields of \<open>env\<close>. \<open>nativeParse s\<close>
  is the time value of \<^verbatim>\<open>new Date(s)\<close> in milliseconds, \<open>None\<close> when the date is invalid
  (\<^verbatim>\<open>getTime()\<close> is \<^verbatim>\<open>NaN\<close>). \<open>niceDomain (lo, hi)\<close> is the domain of a linear scale
  after \<^verbatim>\<open>.domain([lo, hi]).nice()\<close>. A bound of a domain is a number or \<^verbatim>\<open>NaN\<close>.
\<close>

datatype num = NaN | Num real

record env =
  nativeParse :: "string \<Rightarrow> int option"
  localeCompare :: "string \<Rightarrow> string \<Rightarrow> int"
  niceDomain :: "num \<times> num \<Rightarrow> num \<times> num"

text \<open>The character classes \<^verbatim>\<open>\w\<close>, \<^verbatim>\<open>\s\<close> and \<^verbatim>\<open>\d\<close> of a JavaScript regular expression,
  on 8-bit characters, by character code (\<open>0\<close> is 48, \<open>A\<close> is 65, \<open>a\<close> is 97).\<close>

definition is_digit :: "char \<Rightarrow> bool" where
  "is_digit c = ((48::nat) \<le> of_char c \<and> of_char c \<le> (57::nat))"

definition is_word :: "char \<Rightarrow> bool" where
  "is_word c = (((97::nat) \<le> of_char c \<and> of_char c \<le> (122::nat))
                 \<or> ((65::nat) \<le> of_char c \<and> of_char c \<le> (90::nat))
                 \<or> is_digit c \<or> c = CHR ''_'')"

definition is_space :: "char \<Rightarrow> bool" where
  "is_space c = (c \<in> set [CHR '' '', CHR 0x09, CHR 0x0A, CHR 0x0B, CHR 0x0C, CHR 0x0D, CHR 0xA0])"

text \<open>
  \<^verbatim>\<open>str.match(/^(\w+)\s+(\d{4})$/)\<close>: the two groups, when the string matches. Word and
  space characters are disjoint, so the greedy first group is the longest word prefix
  and the space run is the longest one after it.
\<close>

definition monthYear :: "string \<Rightarrow> (string \<times> string) option" where
  "monthYear str =
     (let w = takeWhile is_word str;
          r = dropWhile is_word str;
          sp = takeWhile is_space r;
          y = dropWhile is_space r
      in if w \<noteq> [] \<and> sp \<noteq> [] \<and> length y = 4 \<and> list_all is_digit y then Some (w, y) else None)"

definition parseDate :: "env \<Rightarrow> string \<Rightarrow> int option" where
  "parseDate e str =
     (if str = [] then None
      else case nativeParse e str of
             Some t \<Rightarrow> Some t
           | None \<Rightarrow>
               (case monthYear str of
                  Some (m, y) \<Rightarrow> nativeParse e (m @ '' 1, '' @ y)
                | None \<Rightarrow> None))"

text \<open>\<^verbatim>\<open>parseDate(a.dimension) || 0\<close>.\<close>

definition dateKey :: "env \<Rightarrow> row \<Rightarrow> int" where
  "dateKey e a = (case parseDate e (dimension a) of Some t \<Rightarrow> t | None \<Rightarrow> 0)"

text \<open>
  \<^verbatim>\<open>Array.prototype.sort\<close> with a comparator is stable; for a comparator that is a
  consistent ordering its result is the one stable arrangement, computed here by
  insertion from the right. \<open>c a b \<le> 0\<close> keeps \<open>a\<close> in front of \<open>b\<close>.
\<close>

fun insert_cmp :: "('a \<Rightarrow> 'a \<Rightarrow> int) \<Rightarrow> 'a \<Rightarrow> 'a list \<Rightarrow> 'a list" where
  "insert_cmp c x [] = [x]"
| "insert_cmp c x (y # ys) = (if c x y \<le> 0 then x # y # ys else y # insert_cmp c x ys)"

definition sort_cmp :: "('a \<Rightarrow> 'a \<Rightarrow> int) \<Rightarrow> 'a list \<Rightarrow> 'a list" where
  "sort_cmp c xs = foldr (insert_cmp c) xs []"

definition isDateData :: "env \<Rightarrow> row list \<Rightarrow> bool" where
  "isDateData e rows =
     (length (filter (\<lambda>d. d \<noteq> None) (map (\<lambda>d. parseDate e (dimension d)) (take 3 rows))) \<ge> 2)"

definition sortOrderOf :: "configTree \<Rightarrow> string" where
  "sortOrderOf cfg = (if x_sort (xAxis cfg) = [] then ''default'' else x_sort (xAxis cfg))"

definition sortRows :: "env \<Rightarrow> string \<Rightarrow> row list \<Rightarrow> row list" where
  "sortRows e sortOrder rows =
     (if sortOrder = ''asc'' \<or> sortOrder = ''desc'' then
        (if isDateData e rows then
           sort_cmp (\<lambda>a b. if sortOrder = ''asc'' then dateKey e a - dateKey e b
                            else dateKey e b - dateKey e a) rows
         else
           sort_cmp (\<lambda>a b. if sortOrder = ''asc'' then localeCompare e (dimension a) (dimension b)
                            else - localeCompare e (dimension a) (dimension b)) rows)
      else if sortOrder = ''reverse'' then rev rows
      else rows)"

section \<open>Scales\<close>

text \<open>
  JavaScript numbers are binary64 floating-point values. The arithmetic of
  \<^verbatim>\<open>createScales\<close> is rounded as the engine rounds it, because \<^verbatim>\<open>nice()\<close> moves a bound
  that is not a tick value to the next one, so that the last bit of a product decides
  the domain: \<^verbatim>\<open>100 * 1.1\<close> is \<open>110.00000000000001\<close>, not \<open>110\<close>. \<open>double x\<close> is the
  binary64 value nearest to \<open>x\<close>, ties going to the even significand; \<open>exponent x\<close>
  is the binary exponent of \<open>x\<close>, and \<open>-1022\<close> throughout the subnormal range. A
  literal such as \<^verbatim>\<open>1.1\<close> denotes \<open>double 1.1\<close>. Overflow is not modelled: a
  magnitude that the engine rounds to \<^verbatim>\<open>Infinity\<close> is rounded here like the others.
\<close>

fun expUp :: "nat \<Rightarrow> nat \<Rightarrow> real \<Rightarrow> nat" where
  "expUp 0 e x = e"
| "expUp (Suc n) e x = (if x < 2 ^ Suc e then e else expUp n (Suc e) x)"

fun expDown :: "nat \<Rightarrow> nat \<Rightarrow> real \<Rightarrow> nat" where
  "expDown 0 e x = e"
| "expDown (Suc n) e x = (if 1 \<le> x * 2 ^ e then e else expDown n (Suc e) x)"

definition exponent :: "real \<Rightarrow> int" where
  "exponent x = (if 1 \<le> \<bar>x\<bar> then int (expUp 1024 0 \<bar>x\<bar>) else - int (expDown 1021 1 \<bar>x\<bar>))"

definition pow2 :: "int \<Rightarrow> real" where
  "pow2 e = (if 0 \<le> e then 2 ^ nat e else 1 / 2 ^ nat (- e))"

definition roundEven :: "real \<Rightarrow> int" where
  "roundEven r =
     (let f = \<lfloor>r\<rfloor>
      in if r - of_int f < 1 / 2 then f
         else if 1 / 2 < r - of_int f then f + 1
         else if even f then f else f + 1)"

definition double :: "real \<Rightarrow> real" where
  "double x = of_int (roundEven (x / pow2 (exponent x - 52))) * pow2 (exponent x - 52)"

text \<open>
  \<^verbatim>\<open>d3.max\<close> and \<^verbatim>\<open>d3.min\<close> of an empty array are \<^verbatim>\<open>undefined\<close>, which every use
  below coerces to \<^verbatim>\<open>NaN\<close> by arithmetic; \<^verbatim>\<open>Math.max\<close> and \<^verbatim>\<open>Math.min\<close> return
  \<^verbatim>\<open>NaN\<close> when an argument is \<^verbatim>\<open>NaN\<close>. \<open>num_times m k\<close> is the product \<^verbatim>\<open>m * k\<close> with
  the literal \<open>k\<close>.
\<close>

fun d3_max :: "real list \<Rightarrow> num" where
  "d3_max [] = NaN"
| "d3_max (v # vs) = Num (fold max vs v)"

fun d3_min :: "real list \<Rightarrow> num" where
  "d3_min [] = NaN"
| "d3_min (v # vs) = Num (fold min vs v)"

fun num_times :: "num \<Rightarrow> real \<Rightarrow> num" where
  "num_times NaN k = NaN"
| "num_times (Num a) k = Num (double (a * double k))"

fun math_max :: "num \<Rightarrow> num \<Rightarrow> num" where
  "math_max (Num a) (Num b) = Num (max a b)"
| "math_max _ _ = NaN"

fun math_min :: "num \<Rightarrow> num \<Rightarrow> num" where
  "math_min (Num a) (Num b) = Num (min a b)"
| "math_min _ _ = NaN"

text \<open>
  A linear scale as the code leaves it: \<open>sc_domain\<close> is what \<^verbatim>\<open>scale.domain()\<close>
  returns, that is the pair handed to \<^verbatim>\<open>.domain([lo, hi])\<close> after the \<^verbatim>\<open>.nice()\<close> that
  every such call is followed by, and \<open>sc_range\<close> is the pair handed to \<^verbatim>\<open>.range\<close>.
  The band scale holds the arguments of \<^verbatim>\<open>.domain\<close>, \<^verbatim>\<open>.range\<close> and \<^verbatim>\<open>.padding\<close>.
\<close>

record scale =
  sc_domain :: "num \<times> num"
  sc_range :: "real \<times> real"

record bandScale =
  bs_domain :: "string list"
  bs_range :: "real \<times> real"
  bs_padding :: real

section \<open>The chart object\<close>

text \<open>
  A JavaScript slot holding an object reference, \<^verbatim>\<open>null\<close> or \<^verbatim>\<open>undefined\<close>. Row arrays
  and scale objects live in stores indexed by address, so that \<^verbatim>\<open>data !== this.data\<close>
  and \<^verbatim>\<open>this.yScaleRight = this.yScaleLeft\<close> compare and copy references.
\<close>

datatype 'a slot = Null | Undefined | Ref 'a

datatype error = TypeError string

record margins =
  m_top :: real
  m_right :: real
  m_bottom :: real
  m_left :: real

record chart =
  arrays :: "nat \<Rightarrow> row list"
  next_array :: nat
  scales :: "nat \<Rightarrow> scale"
  next_scale :: nat
  margin :: margins
  width :: real
  height :: real
  xScale :: "bandScale option"
  yScaleLeft :: "nat option"
  yScaleRight :: "nat option"
  data :: "nat slot"
  originalData :: "nat slot"
  fieldNames :: "fieldNameMap slot"
  config :: "configTree slot"
  isFirstRender :: bool
  lastLegendPosition :: "string option"
  timers :: "string list"

definition emptyScale :: scale where
  "emptyScale = \<lparr>sc_domain = (Num 0, Num 1), sc_range = (0, 1)\<rparr>"

text \<open>The object literal \<^verbatim>\<open>ComboChart\<close> before \<^verbatim>\<open>init\<close>, with empty stores.\<close>

definition initialChart :: chart where
  "initialChart =
     \<lparr>arrays = (\<lambda>_. []), next_array = 0, scales = (\<lambda>_. emptyScale), next_scale = 0,
      margin = \<lparr>m_top = 30, m_right = 60, m_bottom = 80, m_left = 60\<rparr>,
      width = 0, height = 0, xScale = None, yScaleLeft = None, yScaleRight = None,
      data = Null, originalData = Null, fieldNames = Null, config = Null,
      isFirstRender = True, lastLegendPosition = None, timers = []\<rparr>"

text \<open>A caller's fresh row array (\<^verbatim>\<open>result.data\<close> of the data adapter) gets a new address.\<close>

definition newArray :: "row list \<Rightarrow> chart \<Rightarrow> nat \<times> chart" where
  "newArray rows st =
     (next_array st, st\<lparr>arrays := (arrays st)(next_array st := rows), next_array := Suc (next_array st)\<rparr>)"

definition newScale :: "scale \<Rightarrow> chart \<Rightarrow> nat \<times> chart" where
  "newScale sc st =
     (next_scale st, st\<lparr>scales := (scales st)(next_scale st := sc), next_scale := Suc (next_scale st)\<rparr>)"

text \<open>\<^verbatim>\<open>scale.domain([lo, hi]).nice()\<close> and \<^verbatim>\<open>scale.range([a, b])\<close> on an existing scale object.\<close>

definition setDomainNice :: "env \<Rightarrow> nat \<Rightarrow> num \<times> num \<Rightarrow> chart \<Rightarrow> chart" where
  "setDomainNice e a d st = st\<lparr>scales := (scales st)(a := (scales st a)\<lparr>sc_domain := niceDomain e d\<rparr>)\<rparr>"

definition setRange :: "nat \<Rightarrow> real \<times> real \<Rightarrow> chart \<Rightarrow> chart" where
  "setRange a r st = st\<lparr>scales := (scales st)(a := (scales st a)\<lparr>sc_range := r\<rparr>)\<rparr>"

subsection \<open>updateDimensions\<close>

text \<open>\<open>cw\<close> and \<open>ch\<close> are the width and height of the container's bounding rectangle.\<close>

definition computeMargins :: "real \<Rightarrow> real \<Rightarrow> configTree \<Rightarrow> fieldNameMap slot \<Rightarrow> margins" where
  "computeMargins cw ch cfg names =
     (let baseMargin = min cw ch * 0.08;
          top = (if title_show cfg then max 25 (min 45 (baseMargin * 0.8)) else 20);
          xRotation = \<bar>x_rotation (xAxis cfg)\<bar>;
          bottomBase = (if xRotation = 0 then 45 else if xRotation \<le> 45 then 60 else 80);
          hasXTitle = (x_showTitle (xAxis cfg) \<noteq> Some False \<and>
                       (x_title (xAxis cfg) \<noteq> [] \<or>
                        (case names of Ref f \<Rightarrow> fn_dimension f \<noteq> [] | _ \<Rightarrow> False)));
          bottomExtra = (if hasXTitle then 20 else 0);
          bottom = max 40 (min 110 (bottomBase + bottomExtra));
          leftBase = max 70 (min 110 (baseMargin * 1.4));
          leftExtra = (if y_showTitle (yAxisLeft cfg) \<noteq> Some False then 25 else 0);
          left = leftBase + leftExtra;
          right = (if axisMode cfg = ''dual''
                   then max 50 (min 80 (baseMargin * 1.1))
                        + (if y_showTitle (yAxisRight cfg) \<noteq> Some False then 20 else 0)
                   else 20)
      in \<lparr>m_top = top, m_right = right, m_bottom = bottom, m_left = left\<rparr>)"

definition updateDimensions :: "real \<Rightarrow> real \<Rightarrow> configTree \<Rightarrow> chart \<Rightarrow> chart" where
  "updateDimensions cw ch cfg st =
     (let m = computeMargins cw ch cfg (fieldNames st)
      in st\<lparr>margin := m,
            width := max 0 (cw - m_left m - m_right m),
            height := max 0 (ch - m_top m - m_bottom m)\<rparr>)"

subsection \<open>createScales\<close>

definition barMaxOf :: "configTree \<Rightarrow> row list \<Rightarrow> num" where
  "barMaxOf cfg rows =
     (if barStyle cfg = ''stacked'' then d3_max (map (\<lambda>d. double (bar1Value d + bar2Value d)) rows)
      else d3_max (map (\<lambda>d. max (bar1Value d) (bar2Value d)) rows))"

definition lineMaxOf :: "row list \<Rightarrow> num" where
  "lineMaxOf rows = d3_max (map lineValue rows)"

definition barMinOf :: "row list \<Rightarrow> num" where
  "barMinOf rows = d3_min (map (\<lambda>d. min (bar1Value d) (bar2Value d)) rows)"

definition lineMinOf :: "row list \<Rightarrow> num" where
  "lineMinOf rows = d3_min (map lineValue rows)"

text \<open>\<^verbatim>\<open>axis.includeZero !== false ? 0 : m * 0.9\<close>.\<close>

definition autoMin :: "yAxisConfig \<Rightarrow> num \<Rightarrow> num" where
  "autoMin ax m = (if y_includeZero ax \<noteq> Some False then Num 0 else num_times m 0.9)"

text \<open>\<^verbatim>\<open>c !== null ? c : auto\<close> and \<^verbatim>\<open>c || auto\<close> on a configured bound.\<close>

definition notNullOr :: "real option \<Rightarrow> num \<Rightarrow> num" where
  "notNullOr c auto = (case c of Some v \<Rightarrow> Num v | None \<Rightarrow> auto)"

definition truthyOr :: "real option \<Rightarrow> num \<Rightarrow> num" where
  "truthyOr c auto = (case c of Some v \<Rightarrow> (if v \<noteq> 0 then Num v else auto) | None \<Rightarrow> auto)"

definition leftDomain :: "configTree \<Rightarrow> row list \<Rightarrow> num \<times> num" where
  "leftDomain cfg rows =
     (let yLeftAutoMin = autoMin (yAxisLeft cfg) (barMinOf rows);
          yLeftMin = notNullOr (y_min (yAxisLeft cfg)) yLeftAutoMin;
          yLeftMax = notNullOr (y_max (yAxisLeft cfg)) (num_times (barMaxOf cfg rows) 1.1)
      in (yLeftMin, yLeftMax))"

definition syncDomain :: "configTree \<Rightarrow> row list \<Rightarrow> num \<times> num" where
  "syncDomain cfg rows =
     (let combinedMax = num_times (math_max (barMaxOf cfg rows) (lineMaxOf rows)) 1.1;
          leftAutoMin = autoMin (yAxisLeft cfg) (barMinOf rows);
          rightAutoMin = autoMin (yAxisRight cfg) (lineMinOf rows);
          syncMin = math_min (notNullOr (y_min (yAxisLeft cfg)) leftAutoMin)
                             (notNullOr (y_min (yAxisRight cfg)) rightAutoMin);
          syncMax = math_max (notNullOr (y_max (yAxisLeft cfg)) combinedMax)
                             (notNullOr (y_max (yAxisRight cfg)) combinedMax)
      in (syncMin, syncMax))"

definition rightDomain :: "configTree \<Rightarrow> row list \<Rightarrow> num \<times> num" where
  "rightDomain cfg rows =
     (let yRightAutoMin = autoMin (yAxisRight cfg) (lineMinOf rows);
          yRightMin = notNullOr (y_min (yAxisRight cfg)) yRightAutoMin;
          yRightMax = notNullOr (y_max (yAxisRight cfg)) (num_times (lineMaxOf rows) 1.1)
      in (yRightMin, yRightMax))"

definition sharedDomain :: "configTree \<Rightarrow> row list \<Rightarrow> num \<times> num" where
  "sharedDomain cfg rows =
     (let combinedMax = num_times (math_max (barMaxOf cfg rows) (lineMaxOf rows)) 1.1;
          sharedMin = (if y_includeZero (yAxisLeft cfg) \<noteq> Some False then Num 0
                       else num_times (math_min (barMinOf rows) (lineMinOf rows)) 0.9)
      in (notNullOr (y_min (yAxisLeft cfg)) sharedMin, truthyOr (y_max (yAxisLeft cfg)) combinedMax))"

definition rangeTopFraction :: "string \<Rightarrow> real" where
  "rangeTopFraction vertPos =
     (if vertPos = ''upper'' then 0.15 else if vertPos = ''middle'' then 0.35
      else if vertPos = ''lower'' then 0.55 else if vertPos = ''bottom'' then 0.75 else 0)"

definition createYScales :: "env \<Rightarrow> configTree \<Rightarrow> row list \<Rightarrow> chart \<Rightarrow> chart" where
  "createYScales e cfg rows st =
     (let h = height st;
          (l, st1) = newScale \<lparr>sc_domain = niceDomain e (leftDomain cfg rows), sc_range = (h, 0)\<rparr> st;
          st2 = st1\<lparr>yScaleLeft := Some l\<rparr>
      in if axisMode cfg = ''dual'' then
           (let (r, st3) =
                  (if syncDualAxis cfg then
                     newScale \<lparr>sc_domain = niceDomain e (syncDomain cfg rows), sc_range = (h, 0)\<rparr>
                       (setDomainNice e l (syncDomain cfg rows) st2)
                   else
                     newScale \<lparr>sc_domain = niceDomain e (rightDomain cfg rows), sc_range = (h, 0)\<rparr> st2);
                st4 = st3\<lparr>yScaleRight := Some r\<rparr>;
                vertPos = (if line_verticalPosition cfg = [] then ''auto'' else line_verticalPosition cfg)
            in if vertPos \<noteq> ''auto'' \<and> vertPos \<noteq> ''top''
               then setRange r (h, double (h * double (rangeTopFraction vertPos))) st4
               else st4)
         else
           (setDomainNice e l (sharedDomain cfg rows) st2)\<lparr>yScaleRight := Some l\<rparr>)"

text \<open>\<^verbatim>\<open>this.originalData || this.data\<close>: an array is truthy, also when empty.\<close>

definition dataSource :: "chart \<Rightarrow> nat slot" where
  "dataSource st = (case originalData st of Ref a \<Rightarrow> Ref a | _ \<Rightarrow> data st)"

definition createScales :: "env \<Rightarrow> chart \<Rightarrow> error + chart" where
  "createScales e st =
     (case dataSource st of
        Ref src \<Rightarrow>
          (case config st of
             Ref cfg \<Rightarrow>
               (let sortedData = sortRows e (sortOrderOf cfg) (arrays st src);
                    (a, st1) = newArray sortedData st;
                    st2 = st1\<lparr>data := Ref a,
                              xScale := Some \<lparr>bs_domain = map dimension sortedData,
                                              bs_range = (0, width st),
                                              bs_padding = barPadding cfg\<rparr>\<rparr>
                in Inr (createYScales e cfg sortedData st2))
           | _ \<Rightarrow> Inl (TypeError ''this.config is not an object''))
      | _ \<Rightarrow> Inl (TypeError ''dataSource is not iterable''))"

text \<open>Reading the chart's scales and rows through their references.\<close>

definition leftScaleOf :: "chart \<Rightarrow> scale option" where
  "leftScaleOf st = map_option (scales st) (yScaleLeft st)"

definition rightScaleOf :: "chart \<Rightarrow> scale option" where
  "rightScaleOf st = map_option (scales st) (yScaleRight st)"

definition leftDomainOf :: "chart \<Rightarrow> (num \<times> num) option" where
  "leftDomainOf st = map_option sc_domain (leftScaleOf st)"

definition rightDomainOf :: "chart \<Rightarrow> (num \<times> num) option" where
  "rightDomainOf st = map_option sc_domain (rightScaleOf st)"

definition currentRows :: "chart \<Rightarrow> row list" where
  "currentRows st = (case data st of Ref a \<Rightarrow> arrays st a | _ \<Rightarrow> [])"

definition dimensionOrder :: "chart \<Rightarrow> string list" where
  "dimensionOrder st = (case xScale st of Some b \<Rightarrow> bs_domain b | None \<Rightarrow> [])"

subsection \<open>renderLegend\<close>

text \<open>
  Of \<^verbatim>\<open>renderLegend\<close> the chart object keeps only \<^verbatim>\<open>_lastLegendPosition\<close>; a change of
  position against the previous render schedules a callback after 50 ms, which
  captures \<^verbatim>\<open>position\<close>. \<open>timers\<close> lists the pending callbacks by that value.
\<close>

definition renderLegend :: "configTree \<Rightarrow> chart \<Rightarrow> chart" where
  "renderLegend cfg st =
     (if \<not> lg_show (legend cfg) then st
      else
        (let position = (if lg_position (legend cfg) = [] then ''bottom'' else lg_position (legend cfg));
             prevPosition = lastLegendPosition st;
             st1 = st\<lparr>lastLegendPosition := Some position\<rparr>
         in case prevPosition of
              Some p \<Rightarrow> (if p \<noteq> [] \<and> p \<noteq> position then st1\<lparr>timers := timers st1 @ [position]\<rparr> else st1)
            | None \<Rightarrow> st1))"

subsection \<open>render and the two callbacks that call it\<close>

text \<open>
  \<^verbatim>\<open>render(data, fieldNames, config)\<close>. An omitted argument is \<open>Undefined\<close>. The steps
  between \<^verbatim>\<open>createScales\<close> and \<^verbatim>\<open>renderLegend\<close> (grid, axes, bars, line, labels) and
  after it (title, separators) write to the document only; the bar and label geometry
  they compute is given by the functions of the sections above.
\<close>

definition storeArgs :: "nat slot \<Rightarrow> fieldNameMap slot \<Rightarrow> configTree slot \<Rightarrow> chart \<Rightarrow> chart" where
  "storeArgs dataArg fnArg cfgArg st =
     (let st1 = (if dataArg \<noteq> data st then st\<lparr>originalData := dataArg\<rparr> else st)
      in st1\<lparr>data := dataArg, fieldNames := fnArg, config := cfgArg\<rparr>)"

definition render :: "env \<Rightarrow> real \<Rightarrow> real \<Rightarrow> nat slot \<Rightarrow> fieldNameMap slot \<Rightarrow> configTree slot \<Rightarrow> chart \<Rightarrow> error + chart" where
  "render e cw ch dataArg fnArg cfgArg st =
     (let st2 = storeArgs dataArg fnArg cfgArg st
      in case cfgArg of
           Ref cfg \<Rightarrow>
             (let st3 = (if forceAnimationPreview cfg then st2\<lparr>isFirstRender := True\<rparr> else st2);
                  st4 = updateDimensions cw ch cfg st3
              in case createScales e st4 of
                   Inl err \<Rightarrow> Inl err
                 | Inr st5 \<Rightarrow> Inr ((renderLegend cfg st5)\<lparr>isFirstRender := False\<rparr>))
         | _ \<Rightarrow> Inl (TypeError ''cannot read properties of config (forceAnimationPreview)''))"

text \<open>The resize observer's debounced callback: \<^verbatim>\<open>if (this.data) this.render(this.data, this.fieldNames, this.config)\<close>.\<close>

definition resizeRerender :: "env \<Rightarrow> real \<Rightarrow> real \<Rightarrow> chart \<Rightarrow> error + chart" where
  "resizeRerender e cw ch st =
     (case data st of
        Ref a \<Rightarrow> render e cw ch (data st) (fieldNames st) (config st) st
      | _ \<Rightarrow> Inr st)"

text \<open>The callback scheduled by \<^verbatim>\<open>renderLegend\<close>:
  \<^verbatim>\<open>if (this._lastLegendPosition === position) { this.render(); }\<close>.\<close>

definition legendRerender :: "env \<Rightarrow> real \<Rightarrow> real \<Rightarrow> string \<Rightarrow> chart \<Rightarrow> error + chart" where
  "legendRerender e cw ch position st =
     (if lastLegendPosition st = Some position
      then render e cw ch Undefined Undefined Undefined st
      else Inr st)"

text \<open>A burst-free sequence of resize callbacks, one per container size; it stops at the first exception.\<close>

fun resizeMany :: "env \<Rightarrow> (real \<times> real) list \<Rightarrow> chart \<Rightarrow> error + chart" where
  "resizeMany e [] st = Inr st"
| "resizeMany e ((cw, ch) # sizes) st =
     (case resizeRerender e cw ch st of Inl err \<Rightarrow> Inl err | Inr st' \<Rightarrow> resizeMany e sizes st')"

text \<open>
  What holds of every chart object the code can reach: the arrays referred to are
  allocated, and once \<^verbatim>\<open>this.data\<close> holds an array so does \<^verbatim>\<open>this.originalData\<close>.
\<close>

definition chart_ok :: "chart \<Rightarrow> bool" where
  "chart_ok st =
     (case data st of
        Ref x \<Rightarrow> x < next_array st \<and> (case originalData st of Ref orig \<Rightarrow> orig < next_array st | _ \<Rightarrow> False)
      | _ \<Rightarrow> True)"

section \<open>Deep merge of a saved configuration with the defaults\<close>

text \<open>
  \<^verbatim>\<open>Config.merge\<close> and the dialog's \<^verbatim>\<open>deepMerge\<close> have the same body. Their arguments
  are JSON values: the defaults literal, and what \<^verbatim>\<open>JSON.parse\<close> returns for the stored
  settings string. \<^verbatim>\<open>JSON.parse(JSON.stringify(x))\<close> of a JSON value is the value itself.
  An object is the list of its own entries in property order.
\<close>

datatype json = JNull | JBool bool | JNum real | JStr string | JArr "json list" | JObj "(string \<times> json) list"

text \<open>JavaScript truthiness, for \<^verbatim>\<open>result[key] || {}\<close>, and the test for a plain object.\<close>

fun truthy :: "json \<Rightarrow> bool" where
  "truthy JNull = False"
| "truthy (JBool b) = b"
| "truthy (JNum n) = (n \<noteq> 0)"
| "truthy (JStr s) = (s \<noteq> [])"
| "truthy (JArr _) = True"
| "truthy (JObj _) = True"

fun is_object :: "json \<Rightarrow> bool" where
  "is_object (JObj _) = True"
| "is_object _ = False"

definition orEmpty :: "json option \<Rightarrow> json" where
  "orEmpty v = (case v of Some t \<Rightarrow> (if truthy t then t else JObj []) | None \<Rightarrow> JObj [])"

text \<open>
  A property key is an array index when it is the canonical decimal form of a number
  below \<open>2\<^sup>3\<^sup>2 - 1\<close>. An object lists its array-index keys first, in ascending order, and
  then its other keys in the order of their creation.
\<close>

definition digitsVal :: "string \<Rightarrow> nat" where
  "digitsVal s = foldl (\<lambda>n c. 10 * n + (of_char c - 48)) 0 s"

definition arrayIndex :: "string \<Rightarrow> nat option" where
  "arrayIndex s =
     (if s \<noteq> [] \<and> list_all is_digit s \<and> (length s = 1 \<or> hd s \<noteq> CHR ''0'') \<and> digitsVal s < 4294967295
      then Some (digitsVal s) else None)"

definition indexKey :: "string \<Rightarrow> nat" where
  "indexKey k = (case arrayIndex k of Some i \<Rightarrow> i | None \<Rightarrow> 0)"

text \<open>The keys that \<^verbatim>\<open>for (const key in obj)\<close> visits, in its order, for an object with the
  entries \<open>kvs\<close> and nothing enumerable inherited.\<close>

definition forIn :: "(string \<times> json) list \<Rightarrow> string list" where
  "forIn kvs =
     (let ks = remdups (map fst kvs)
      in sort_key indexKey (filter (\<lambda>k. arrayIndex k \<noteq> None) ks) @ filter (\<lambda>k. arrayIndex k = None) ks)"

text \<open>\<^verbatim>\<open>result[key] = v\<close> on an object with entries \<open>kvs\<close>, for a key that is one of them or
  that no prototype intercepts, and on an array at an index up to its length.\<close>

fun replaceEntry :: "string \<Rightarrow> json \<Rightarrow> (string \<times> json) list \<Rightarrow> (string \<times> json) list" where
  "replaceEntry k v [] = []"
| "replaceEntry k v ((k', v') # kvs) = (if k' = k then (k, v) # kvs else (k', v') # replaceEntry k v kvs)"

fun insertIndexed :: "nat \<Rightarrow> string \<Rightarrow> json \<Rightarrow> (string \<times> json) list \<Rightarrow> (string \<times> json) list" where
  "insertIndexed i k v [] = [(k, v)]"
| "insertIndexed i k v ((k', v') # kvs) =
     (case arrayIndex k' of
        Some j \<Rightarrow> (if j < i then (k', v') # insertIndexed i k v kvs else (k, v) # (k', v') # kvs)
      | None \<Rightarrow> (k, v) # (k', v') # kvs)"

definition assign :: "string \<Rightarrow> json \<Rightarrow> (string \<times> json) list \<Rightarrow> (string \<times> json) list" where
  "assign k v kvs =
     (if map_of kvs k \<noteq> None then replaceEntry k v kvs
      else case arrayIndex k of
             Some i \<Rightarrow> insertIndexed i k v kvs
           | None \<Rightarrow> kvs @ [(k, v)])"

definition setElem :: "nat \<Rightarrow> json \<Rightarrow> json list \<Rightarrow> json list" where
  "setElem i v xs = (if i < length xs then xs[i := v] else xs @ [v])"

text \<open>
  The property names a plain object inherits from \<^verbatim>\<open>Object.prototype\<close>: eleven
  functions and the accessor \<^verbatim>\<open>__proto__\<close>. Under such a key, unless the object has an
  entry of its own, \<^verbatim>\<open>result[key]\<close> reads the inherited member, and
  \<^verbatim>\<open>result.__proto__ = v\<close> replaces the prototype when \<open>v\<close> is an object, an array or
  \<^verbatim>\<open>null\<close> and does nothing otherwise.
\<close>

definition protoNames :: "string list" where
  "protoNames =
     [''constructor'', ''hasOwnProperty'', ''isPrototypeOf'', ''propertyIsEnumerable'',
      ''toLocaleString'', ''toString'', ''valueOf'', ''__proto__'',
      ''__defineGetter__'', ''__defineSetter__'', ''__lookupGetter__'', ''__lookupSetter__'']"

definition inherited :: "(string \<times> json) list \<Rightarrow> string \<Rightarrow> bool" where
  "inherited res key = (map_of res key = None \<and> key \<in> set protoNames)"

fun setsPrototype :: "json \<Rightarrow> bool" where
  "setsPrototype JNull = True"
| "setsPrototype (JArr _) = True"
| "setsPrototype (JObj _) = True"
| "setsPrototype _ = False"

lemma map_of_size:
  "map_of kvs k = Some v \<Longrightarrow> size v < Suc (size_list (size_prod (\<lambda>_. 0) size) kvs)"
  by (induction kvs) (auto split: if_splits)

lemma forIn_length: "length (forIn ov) < Suc (length ov)"
proof -
  have "length (forIn ov) = length (remdups (map fst ov))"
    using sum_length_filter_compl [of "\<lambda>k. arrayIndex k \<noteq> None" "remdups (map fst ov)"]
    by (simp add: forIn_def Let_def)
  then show ?thesis using length_remdups_leq [of "map fst ov"] by simp
qed

text \<open>
  \<open>merge strict defaults overrides\<close>, with \<open>overrides\<close> the entries of the overriding
  object (a key listed twice counts once, with its first value). \<open>mergeKeys\<close> is the
  \<^verbatim>\<open>for (const key in overrides)\<close> loop over the remaining keys when \<^verbatim>\<open>result\<close> is an
  object with entries \<open>res\<close>, \<open>mergeElems\<close> the same loop when \<^verbatim>\<open>result\<close> is an array.
  \<open>strict\<close> tells the dialog's \<^verbatim>\<open>deepMerge\<close>, which runs under \<^verbatim>\<open>'use strict'\<close>, from
  \<^verbatim>\<open>Config.merge\<close>, which does not.

  \<^item> An overriding object with a key \<^verbatim>\<open>hasOwnProperty\<close> shadows the method the loop calls:
    the first \<^verbatim>\<open>overrides.hasOwnProperty(key)\<close> throws.
  \<^item> Where \<^verbatim>\<open>result[key]\<close> is an inherited function and the override is an object, the
    recursive call throws in \<^verbatim>\<open>JSON.parse(JSON.stringify(f))\<close>, which is
    \<^verbatim>\<open>JSON.parse(undefined)\<close>.
  \<^item> Where \<^verbatim>\<open>result\<close> is \<^verbatim>\<open>null\<close> the first read or assignment throws. Where it is a
    number, string or boolean the assignment \<^verbatim>\<open>result[key] = ...\<close> throws in strict mode
    and is dropped otherwise.
  \<^item> \<open>Outside\<close> stands for the outcomes that are not followed further: \<^verbatim>\<open>result\<close> has got
    another prototype, or is an array that has got a hole or a property that is not one
    of its indices, or is a number, string or boolean whose inherited members are read
    (an object is to be merged into one of its properties).
\<close>

datatype merged = Merged json | Throws string | Outside

function merge :: "bool \<Rightarrow> json \<Rightarrow> (string \<times> json) list \<Rightarrow> merged"
  and mergeKeys :: "bool \<Rightarrow> (string \<times> json) list \<Rightarrow> string list \<Rightarrow> (string \<times> json) list \<Rightarrow> merged"
  and mergeElems :: "bool \<Rightarrow> (string \<times> json) list \<Rightarrow> string list \<Rightarrow> json list \<Rightarrow> merged" where
  "merge strict defaults overrides =
     (if overrides = [] then Merged defaults
      else if ''hasOwnProperty'' \<in> set (map fst overrides)
      then Throws ''overrides.hasOwnProperty is not a function''
      else case defaults of
             JObj res \<Rightarrow> mergeKeys strict overrides (forIn overrides) res
           | JArr xs \<Rightarrow> mergeElems strict overrides (forIn overrides) xs
           | JNull \<Rightarrow> Throws ''cannot read or set properties of null''
           | prim \<Rightarrow> (if strict then Throws ''cannot create property on a primitive''
                      else if list_all (\<lambda>(k, v). \<not> is_object v) overrides then Merged prim
                      else Outside))"
| "mergeKeys strict overrides [] res = Merged (JObj res)"
| "mergeKeys strict overrides (key # keys) res =
     (case map_of overrides key of
        Some (JObj sub) \<Rightarrow>
          (if inherited res key then
             (if key = ''__proto__''
              then (case merge strict (JObj []) sub of Merged m \<Rightarrow> Outside | other \<Rightarrow> other)
              else Throws ''undefined is not valid JSON'')
           else
             (case merge strict (orEmpty (map_of res key)) sub of
                Merged m \<Rightarrow> mergeKeys strict overrides keys (assign key m res)
              | other \<Rightarrow> other))
      | Some v \<Rightarrow>
          (if inherited res key \<and> key = ''__proto__''
           then (if setsPrototype v then Outside else mergeKeys strict overrides keys res)
           else mergeKeys strict overrides keys (assign key v res))
      | None \<Rightarrow> mergeKeys strict overrides keys res)"
| "mergeElems strict overrides [] xs = Merged (JArr xs)"
| "mergeElems strict overrides (key # keys) xs =
     (case arrayIndex key of
        None \<Rightarrow> Outside
      | Some i \<Rightarrow>
          (if length xs < i then Outside
           else case map_of overrides key of
                  Some (JObj sub) \<Rightarrow>
                    (case merge strict (orEmpty (if i < length xs then Some (xs ! i) else None)) sub of
                       Merged m \<Rightarrow> mergeElems strict overrides keys (setElem i m xs)
                     | other \<Rightarrow> other)
                | Some v \<Rightarrow> mergeElems strict overrides keys (setElem i v xs)
                | None \<Rightarrow> mergeElems strict overrides keys xs))"
  by pat_completeness auto
termination
  by (relation "measures [\<lambda>x. case x of Inl (s, d, ov) \<Rightarrow> size_list (size_prod (\<lambda>_. 0) size) ov
                              | Inr (Inl (s, ov, ks, res)) \<Rightarrow> size_list (size_prod (\<lambda>_. 0) size) ov
                              | Inr (Inr (s, ov, ks, xs)) \<Rightarrow> size_list (size_prod (\<lambda>_. 0) size) ov,
                          \<lambda>x. case x of Inl (s, d, ov) \<Rightarrow> Suc (length ov)
                              | Inr (Inl (s, ov, ks, res)) \<Rightarrow> length ks
                              | Inr (Inr (s, ov, ks, xs)) \<Rightarrow> length ks]")
     (auto dest: map_of_size simp: forIn_length)

text \<open>Reading a dotted path through nested objects; \<open>None\<close> is \<^verbatim>\<open>undefined\<close>.\<close>

fun lookup :: "json \<Rightarrow> string list \<Rightarrow> json option" where
  "lookup v [] = Some v"
| "lookup (JObj kvs) (k # p) = (case map_of kvs k of Some v \<Rightarrow> lookup v p | None \<Rightarrow> None)"
| "lookup _ (k # p) = None"

text \<open>
  A saved tree is shaped like the defaults when, on the keys they share, it has an
  object wherever the defaults have one, and has an object over a leaf of the defaults
  only where that leaf is falsy (\<^verbatim>\<open>null\<close>, \<^verbatim>\<open>false\<close>, \<open>0\<close> or the empty string, which
  \<^verbatim>\<open>result[key] || {}\<close> replaces by an empty object). Its keys are plain when none of
  them, at any depth, is a name inherited from \<^verbatim>\<open>Object.prototype\<close>.
\<close>

fun conforms :: "json \<Rightarrow> json \<Rightarrow> bool" where
  "conforms (JObj dkvs) (JObj okvs) =
     list_all (\<lambda>(k, v). case map_of dkvs k of None \<Rightarrow> True | Some dv \<Rightarrow> conforms dv v) okvs"
| "conforms (JObj dkvs) v = False"
| "conforms dv (JObj okvs) = (\<not> truthy dv)"
| "conforms dv v = True"

fun plainKeys :: "json \<Rightarrow> bool" where
  "plainKeys (JObj kvs) = list_all (\<lambda>(k, v). k \<notin> set protoNames \<and> plainKeys v) kvs"
| "plainKeys _ = True"

text \<open>
  The deep merge in the specification's words, one level at a time: under a key the
  overlay wins when it holds a scalar, an array or \<^verbatim>\<open>null\<close>; a plain object is merged
  into what the defaults hold there; a key the overlay lacks keeps the default.
\<close>

definition specEntry :: "bool \<Rightarrow> (string \<times> json) list \<Rightarrow> (string \<times> json) list \<Rightarrow> string \<Rightarrow> json option" where
  "specEntry strict dkvs ov k =
     (case map_of ov k of
        None \<Rightarrow> map_of dkvs k
      | Some v \<Rightarrow>
          (if is_object v
           then (case v of JObj sub \<Rightarrow>
                   (case merge strict (orEmpty (map_of dkvs k)) sub of Merged m \<Rightarrow> Some m | _ \<Rightarrow> None)
                 | _ \<Rightarrow> None)
           else Some v))"

subsection \<open>From the configuration object to the stored tree\<close>

text \<open>
  The configuration object that the dialog edits and \<^verbatim>\<open>save\<close> serialises holds more
  than JSON carries: \<^verbatim>\<open>parseInt\<close> and \<^verbatim>\<open>parseFloat\<close> of an empty or malformed input are
  \<^verbatim>\<open>NaN\<close>, a number may be infinite, a property may be \<^verbatim>\<open>undefined\<close>. \<open>roundTrip c\<close> is
  \<^verbatim>\<open>JSON.parse(JSON.stringify(c))\<close> for such a value, \<open>None\<close> when it throws (for
  \<^verbatim>\<open>undefined\<close>, of which \<^verbatim>\<open>JSON.stringify\<close> makes no text). \<open>throughJSON c\<close> is what is
  read back for \<open>c\<close> as the whole value, as an element of an array or as the value of
  a property that is kept: \<^verbatim>\<open>NaN\<close> and the infinities are written as \<^verbatim>\<open>null\<close>, a
  property whose value is \<^verbatim>\<open>undefined\<close> is left out, an \<^verbatim>\<open>undefined\<close> array element is
  written as \<^verbatim>\<open>null\<close>, and every other value is read back as it was. The text in
  between is the engine's and is not modelled.
\<close>

datatype cval = CUndefined | CNull | CBool bool | CNum real | CNaN | CInfinity bool | CStr string
  | CArr "cval list" | CObj "(string \<times> cval) list"

fun throughJSON :: "cval \<Rightarrow> json" where
  "throughJSON CUndefined = JNull"
| "throughJSON CNull = JNull"
| "throughJSON (CBool b) = JBool b"
| "throughJSON (CNum n) = JNum n"
| "throughJSON CNaN = JNull"
| "throughJSON (CInfinity negative) = JNull"
| "throughJSON (CStr s) = JStr s"
| "throughJSON (CArr xs) = JArr (map throughJSON xs)"
| "throughJSON (CObj kvs) =
     JObj (filter (\<lambda>(k, v). map_of kvs k \<noteq> Some CUndefined) (map (\<lambda>(k, v). (k, throughJSON v)) kvs))"

definition roundTrip :: "cval \<Rightarrow> json option" where
  "roundTrip c = (if c = CUndefined then None else Some (throughJSON c))"

fun lookupC :: "cval \<Rightarrow> string list \<Rightarrow> cval option" where
  "lookupC v [] = Some v"
| "lookupC (CObj kvs) (k # p) = (case map_of kvs k of Some v \<Rightarrow> lookupC v p | None \<Rightarrow> None)"
| "lookupC _ (k # p) = None"

fun is_objectC :: "cval \<Rightarrow> bool" where
  "is_objectC (CObj _) = True"
| "is_objectC _ = False"

text \<open>The values that JSON carries unchanged, and a JSON value as a configuration value.\<close>

fun carried :: "cval \<Rightarrow> bool" where
  "carried CUndefined = False"
| "carried CNaN = False"
| "carried (CInfinity negative) = False"
| "carried (CArr xs) = list_all carried xs"
| "carried (CObj kvs) = list_all (\<lambda>(k, v). carried v) kvs"
| "carried _ = True"

fun ofJson :: "json \<Rightarrow> cval" where
  "ofJson JNull = CNull"
| "ofJson (JBool b) = CBool b"
| "ofJson (JNum n) = CNum n"
| "ofJson (JStr s) = CStr s"
| "ofJson (JArr xs) = CArr (map ofJson xs)"
| "ofJson (JObj kvs) = CObj (map (\<lambda>(k, v). (k, ofJson v)) kvs)"

text \<open>An excerpt of \<^verbatim>\<open>Config.defaults\<close> as a JSON value, configuration objects and saved trees.\<close>

definition defaultsEntries :: "(string \<times> json) list" where
  "defaultsEntries =
     [(''barStyle'', JStr ''grouped''),
      (''barPadding'', JNum 0.2),
      (''bar1'', JObj [(''color'', JStr ''#4e79a7''), (''borderWidth'', JNum 1)]),
      (''title'', JObj [(''show'', JBool True), (''text'', JStr ''Combo Chart''), (''fontSize'', JNum 18)]),
      (''yAxisLeft'', JObj [(''show'', JBool True), (''min'', JNull), (''max'', JNull), (''format'', JStr ''auto'')])]"

definition savedConfig :: "(string \<times> cval) list" where
  "savedConfig =
     [(''title'', CObj [(''text'', CStr ''Sales'')]),
      (''yAxisLeft'', CObj [(''max'', CNum 0)]),
      (''barWidth'', CNum 50),
      (''barStyle'', CUndefined)]"

definition savedJson :: "(string \<times> json) list" where
  "savedJson =
     [(''title'', JObj [(''text'', JStr ''Sales'')]),
      (''yAxisLeft'', JObj [(''max'', JNum 0)]),
      (''barWidth'', JNum 50)]"

definition configNaN :: "(string \<times> cval) list" where
  "configNaN = [(''bar1'', CObj [(''borderWidth'', CNaN)])]"

definition savedNaN :: "(string \<times> json) list" where
  "savedNaN = [(''bar1'', JObj [(''borderWidth'', JNull)])]"

definition savedNullTitle :: "(string \<times> json) list" where
  "savedNullTitle = [(''title'', JNull)]"

definition savedObjectPadding :: "(string \<times> json) list" where
  "savedObjectPadding = [(''barPadding'', JObj [(''inner'', JNum 0.1)])]"

definition savedConstructor :: "(string \<times> json) list" where
  "savedConstructor = [(''constructor'', JObj [(''a'', JNum 1)])]"

section \<open>The documented defaults and concrete inputs\<close>

text \<open>\<^verbatim>\<open>Config.defaults\<close>, for the fields of \<open>configTree\<close>. Fields the literal does not
  list (\<^verbatim>\<open>barGap\<close>, \<^verbatim>\<open>barWidth\<close>, \<^verbatim>\<open>includeZero\<close>, \<^verbatim>\<open>line.verticalPosition\<close>,
  \<^verbatim>\<open>forceAnimationPreview\<close>, the fonts' offsets) are absent.\<close>

definition defaultYAxis :: yAxisConfig where
  "defaultYAxis = \<lparr>y_min = None, y_max = None, y_includeZero = None, y_showTitle = Some True\<rparr>"

definition defaultConfig :: configTree where
  "defaultConfig =
     \<lparr>forceAnimationPreview = False,
      animation_enabled = Some True,
      title_show = True,
      xAxis = \<lparr>x_sort = ''default'', x_rotation = 0, x_showTitle = Some True, x_title = []\<rparr>,
      yAxisLeft = defaultYAxis,
      yAxisRight = defaultYAxis,
      axisMode = ''dual'',
      syncDualAxis = False,
      barStyle = ''grouped'',
      barPadding = 0.2,
      barGap = None,
      barWidth = None,
      line_verticalPosition = [],
      barLabels = \<lparr>bl_show = False, bl_position = ''top'', bl_offsetX = Some 0, bl_offsetY = Some 0\<rparr>,
      barLabelFont = Some emptyFont,
      bar1LabelFont = Some emptyFont,
      bar2LabelFont = Some emptyFont,
      legend = \<lparr>lg_show = True, lg_position = ''bottom''\<rparr>\<rparr>"

text \<open>The rows of the scenario in the specification, and a row with a given dimension.\<close>

definition mkRow :: "string \<Rightarrow> real \<Rightarrow> real \<Rightarrow> real \<Rightarrow> row" where
  "mkRow dm b1 b2 lv =
     \<lparr>dimension = dm, bar1Value = b1, bar2Value = b2, lineValue = lv,
      bar1Formatted = [], bar2Formatted = [], lineFormatted = []\<rparr>"

definition rowsAB :: "row list" where
  "rowsAB = [mkRow ''A'' 10 20 5, mkRow ''B'' 30 5 15]"

definition namesAB :: fieldNameMap where
  "namesAB = \<lparr>fn_dimension = ''Category'', fn_bar1 = ''Bar 1'', fn_bar2 = ''Bar 2'', fn_line = ''Line''\<rparr>"

text \<open>
  An engine for evaluation, in the UTC time zone: its \<^verbatim>\<open>Date\<close> reads the ISO dates and
  the \<^verbatim>\<open>Month 1, YYYY\<close> strings listed and nothing else (so \<^verbatim>\<open>Jan 2024\<close> goes through
  the month-year fallback), and its \<^verbatim>\<open>localeCompare\<close> orders by character code. Its
  d3 is \<open>d3Nice\<close> below.
\<close>

definition utcParse :: "string \<Rightarrow> int option" where
  "utcParse s =
     (if s = ''Jan 1, 2024'' then Some 1704067200000
      else if s = ''Feb 1, 2024'' then Some 1706745600000
      else if s = ''Mar 1, 2024'' then Some 1709251200000
      else if s = ''1950-01-01'' then Some (- 631152000000)
      else if s = ''1960-01-01'' then Some (- 315619200000)
      else None)"

fun codeCompare :: "string \<Rightarrow> string \<Rightarrow> int" where
  "codeCompare [] [] = 0"
| "codeCompare [] (y # ys) = - 1"
| "codeCompare (x # xs) [] = 1"
| "codeCompare (x # xs) (y # ys) =
     (if (of_char x :: nat) < of_char y then - 1
      else if (of_char y :: nat) < of_char x then 1
      else codeCompare xs ys)"

text \<open>
  d3's \<^verbatim>\<open>nice()\<close> on a linear scale, with its default of 10 ticks, computed exactly.
  \<open>tickIncrement\<close> is the tick step for an interval: a power of ten times 1, 2, 5
  or 10, chosen by comparing the tenth of the interval with \<open>\<surd>50\<close>, \<open>\<surd>10\<close> and \<open>\<surd>2\<close>
  times the power of ten below it; a step below 1 is returned as minus its inverse.
  \<^verbatim>\<open>nice()\<close> moves the two ends outwards to multiples of the step, and repeats (at most
  10 times) until the step of the widened interval is the step it was widened with.
  It leaves the domain alone when a bound is \<^verbatim>\<open>NaN\<close>, when the two bounds are equal
  and when the steps do not settle; a descending domain is widened the same way.
\<close>

fun powUp :: "nat \<Rightarrow> nat \<Rightarrow> real \<Rightarrow> nat" where
  "powUp 0 p x = p"
| "powUp (Suc n) p x = (if x < 10 ^ Suc p then p else powUp n (Suc p) x)"

fun powDown :: "nat \<Rightarrow> nat \<Rightarrow> real \<Rightarrow> nat" where
  "powDown 0 p x = p"
| "powDown (Suc n) p x = (if 1 \<le> x * 10 ^ p then p else powDown n (Suc p) x)"

definition power10 :: "real \<Rightarrow> int" where
  "power10 x = (if 1 \<le> x then int (powUp 309 0 x) else - int (powDown 324 1 x))"

definition tickFactor :: "real \<Rightarrow> real" where
  "tickFactor err = (if 50 \<le> err * err then 10 else if 10 \<le> err * err then 5 else if 2 \<le> err * err then 2 else 1)"

definition tickIncrement :: "real \<Rightarrow> real \<Rightarrow> real" where
  "tickIncrement start stop =
     (let step = (stop - start) / 10;
          power = power10 step
      in if power < 0
         then - (10 ^ nat (- power) / tickFactor (step * 10 ^ nat (- power)))
         else 10 ^ nat power * tickFactor (step / 10 ^ nat power))"

fun niceLoop :: "nat \<Rightarrow> real option \<Rightarrow> real \<Rightarrow> real \<Rightarrow> (real \<times> real) option" where
  "niceLoop 0 prestep start stop = None"
| "niceLoop (Suc n) prestep start stop =
     (let step = tickIncrement start stop
      in if Some step = prestep then Some (start, stop)
         else if 0 < step
         then niceLoop n (Some step) (of_int \<lfloor>start / step\<rfloor> * step) (of_int \<lceil>stop / step\<rceil> * step)
         else if step < 0
         then niceLoop n (Some step) (of_int \<lceil>start * step\<rceil> / step) (of_int \<lfloor>stop * step\<rfloor> / step)
         else None)"

definition d3Nice :: "num \<times> num \<Rightarrow> num \<times> num" where
  "d3Nice d =
     (case d of
        (Num a, Num b) \<Rightarrow>
          (if a = b then d
           else if b < a
           then (case niceLoop 10 None b a of Some (lo, hi) \<Rightarrow> (Num hi, Num lo) | None \<Rightarrow> d)
           else (case niceLoop 10 None a b of Some (lo, hi) \<Rightarrow> (Num lo, Num hi) | None \<Rightarrow> d))
      | _ \<Rightarrow> d)"

definition utcEnv :: env where
  "utcEnv = \<lparr>nativeParse = utcParse, localeCompare = codeCompare, niceDomain = d3Nice\<rparr>"

text \<open>The chart object holding \<open>rowsAB\<close> at address 0, before its first render, and
  configurations that differ from the defaults in the named fields.\<close>

definition chartAB :: chart where
  "chartAB = snd (newArray rowsAB initialChart)"

definition cfgSharedBounds :: configTree where
  "cfgSharedBounds = defaultConfig\<lparr>axisMode := ''shared'', yAxisLeft := defaultYAxis\<lparr>y_min := Some 5, y_max := Some 200\<rparr>\<rparr>"

definition cfgDualZeroMax :: configTree where
  "cfgDualZeroMax = defaultConfig\<lparr>yAxisLeft := defaultYAxis\<lparr>y_min := Some (- 40), y_max := Some 0\<rparr>\<rparr>"

definition cfgSharedZeroMax :: configTree where
  "cfgSharedZeroMax = defaultConfig\<lparr>axisMode := ''shared'', yAxisLeft := defaultYAxis\<lparr>y_min := Some (- 40), y_max := Some 0\<rparr>\<rparr>"

definition rowsNeg :: "row list" where
  "rowsNeg = [mkRow ''A'' (- 10) (- 20) (- 5), mkRow ''B'' (- 30) (- 5) (- 15)]"

definition cfgLegendRight :: configTree where
  "cfgLegendRight = defaultConfig\<lparr>legend := \<lparr>lg_show = True, lg_position = ''right''\<rparr>\<rparr>"



definition rowsOld :: "row list" where
  "rowsOld = [mkRow ''N/A'' 1 2 3, mkRow ''1960-01-01'' 4 5 6, mkRow ''1950-01-01'' 7 8 9]"

definition rowsMonths :: "row list" where
  "rowsMonths = [mkRow ''Mar 2024'' 1 2 3, mkRow ''Jan 2024'' 4 5 6, mkRow ''Feb 2024'' 7 8 9]"

section \<open>Properties of the bar geometry\<close>

lemma length_bars1: "length (bars1 cfg xs bw ys h rows) = length rows"
  by (simp add: bars1_def)

lemma length_bars2: "length (bars2 cfg xs bw ys h rows) = length rows"
  by (simp add: bars2_def)

lemma bars1_nth:
  "i < length rows \<Longrightarrow>
   bars1 cfg xs bw ys h rows ! i =
     (if barStyle cfg = ''grouped'' then
        mkBar (anim_enabled cfg) (xs (dimension (rows ! i)) + groupedGroupOffset cfg bw)
          (groupedBarWidth cfg bw) h (ys (bar1Value (rows ! i))) (h - ys (bar1Value (rows ! i)))
      else
        mkBar (anim_enabled cfg) (xs (dimension (rows ! i)) + stackOffset cfg bw)
          (stackedBarWidth cfg bw) h (ys (bar1Value (rows ! i))) (h - ys (bar1Value (rows ! i))))"
  by (simp add: bars1_def)

lemma bars2_nth:
  "i < length rows \<Longrightarrow>
   bars2 cfg xs bw ys h rows ! i =
     (if barStyle cfg = ''grouped'' then
        mkBar (anim_enabled cfg)
          (xs (dimension (rows ! i)) + groupedGroupOffset cfg bw + groupedBarWidth cfg bw + barGapOf cfg)
          (groupedBarWidth cfg bw) h (ys (bar2Value (rows ! i))) (h - ys (bar2Value (rows ! i)))
      else
        mkBar (anim_enabled cfg) (xs (dimension (rows ! i)) + stackOffset cfg bw)
          (stackedBarWidth cfg bw) (ys (bar1Value (rows ! i)))
          (ys (bar1Value (rows ! i) + bar2Value (rows ! i)))
          (ys (bar1Value (rows ! i)) - ys (bar1Value (rows ! i) + bar2Value (rows ! i))))"
  by (simp add: bars2_def)

lemma b_final_mkBar: "b_final (mkBar anim x w y0 y h) = \<lparr>r_x = x, r_y = y, r_width = w, r_height = h\<rparr>"
  by (simp add: mkBar_def Let_def)

text \<open>
  C3. With \<^verbatim>\<open>barStyle = 'stacked'\<close>, for every row the final rectangle of the second
  series sits exactly on the first: \<open>segment2.y + segment2.height = segment1.y\<close>,
  where \<open>segment1.y\<close> is the left scale at \<open>bar1Value\<close> and \<open>segment2.y\<close> the left scale
  at \<open>bar1Value + bar2Value\<close>. This holds for every scale function, every row array
  and with or without animation; arithmetic is exact (real numbers).
\<close>

theorem stacked_segments_meet:
  assumes "barStyle cfg = ''stacked''" and "i < length rows"
      and "renderBars cfg xs bw ys h rows = (seg1, seg2)"
  shows "r_y (b_final (seg2 ! i)) + r_height (b_final (seg2 ! i)) = r_y (b_final (seg1 ! i))
         \<and> r_y (b_final (seg1 ! i)) = ys (bar1Value (rows ! i))
         \<and> r_y (b_final (seg2 ! i)) = ys (bar1Value (rows ! i) + bar2Value (rows ! i))
         \<and> length seg1 = length rows \<and> length seg2 = length rows"
proof -
  have ng: "barStyle cfg \<noteq> ''grouped''" using assms(1) by simp
  have s1: "seg1 = bars1 cfg xs bw ys h rows" and s2: "seg2 = bars2 cfg xs bw ys h rows"
    using assms(3) by (simp_all add: renderBars_def)
  show ?thesis
    using assms(2) ng by (simp add: s1 s2 bars1_nth bars2_nth b_final_mkBar length_bars1 length_bars2)
qed

theorem stacked_segments_meet_witness:
  "barStyle (defaultConfig\<lparr>barStyle := ''stacked''\<rparr>) = ''stacked'' \<and> (1::nat) < length rowsAB
   \<and> r_y (b_final (bars2 (defaultConfig\<lparr>barStyle := ''stacked''\<rparr>) (\<lambda>_. 0) 100 (\<lambda>v. 300 - 2 * v) 300 rowsAB ! 1))
     + r_height (b_final (bars2 (defaultConfig\<lparr>barStyle := ''stacked''\<rparr>) (\<lambda>_. 0) 100 (\<lambda>v. 300 - 2 * v) 300 rowsAB ! 1))
     = r_y (b_final (bars1 (defaultConfig\<lparr>barStyle := ''stacked''\<rparr>) (\<lambda>_. 0) 100 (\<lambda>v. 300 - 2 * v) 300 rowsAB ! 1))
   \<and> r_y (b_final (bars1 (defaultConfig\<lparr>barStyle := ''stacked''\<rparr>) (\<lambda>_. 0) 100 (\<lambda>v. 300 - 2 * v) 300 rowsAB ! 1)) = 240"
proof -
  have a: "barStyle (defaultConfig\<lparr>barStyle := ''stacked''\<rparr>) = ''stacked''" by simp
  have b: "(1::nat) < length rowsAB" by (simp add: rowsAB_def)
  have c: "renderBars (defaultConfig\<lparr>barStyle := ''stacked''\<rparr>) (\<lambda>_. 0) 100 (\<lambda>v. 300 - 2 * v) 300 rowsAB
            = (bars1 (defaultConfig\<lparr>barStyle := ''stacked''\<rparr>) (\<lambda>_. 0) 100 (\<lambda>v. 300 - 2 * v) 300 rowsAB,
               bars2 (defaultConfig\<lparr>barStyle := ''stacked''\<rparr>) (\<lambda>_. 0) 100 (\<lambda>v. 300 - 2 * v) 300 rowsAB)"
    by (simp add: renderBars_def)
  show ?thesis
    using stacked_segments_meet [OF a b c] a b by (simp add: rowsAB_def mkRow_def)
qed

text \<open>
  C8, as the code has it. With \<^verbatim>\<open>barStyle = 'grouped'\<close> each bar of either series is
  drawn with width \<open>((bandWidth - barGap) / 2) * (barWidth / 100)\<close>. The width is not
  capped: it stays within the half-band when the percentage lies between 0 and 100 and
  the band is at least as wide as the gap. (Only the group width used for centring is
  capped, at the band width.)
\<close>

theorem grouped_bar_width:
  assumes "barStyle cfg = ''grouped''" and "i < length rows"
  shows "r_width (b_final (bars1 cfg xs bw ys h rows ! i)) = ((bw - barGapOf cfg) / 2) * (barWidthPercent cfg / 100)
         \<and> r_width (b_final (bars2 cfg xs bw ys h rows ! i)) = ((bw - barGapOf cfg) / 2) * (barWidthPercent cfg / 100)
         \<and> (0 \<le> barWidthPercent cfg \<and> barWidthPercent cfg \<le> 100 \<and> barGapOf cfg \<le> bw \<longrightarrow>
              r_width (b_final (bars1 cfg xs bw ys h rows ! i)) \<le> autoBarWidth cfg bw
              \<and> r_width (b_final (bars2 cfg xs bw ys h rows ! i)) \<le> autoBarWidth cfg bw)"
proof -
  have w: "r_width (b_final (bars1 cfg xs bw ys h rows ! i)) = groupedBarWidth cfg bw"
          "r_width (b_final (bars2 cfg xs bw ys h rows ! i)) = groupedBarWidth cfg bw"
    using assms by (simp_all add: bars1_nth bars2_nth b_final_mkBar)
  have cap: "groupedBarWidth cfg bw \<le> autoBarWidth cfg bw"
    if "0 \<le> barWidthPercent cfg" "barWidthPercent cfg \<le> 100" "barGapOf cfg \<le> bw"
  proof -
    have "0 \<le> autoBarWidth cfg bw" using that(3) by (simp add: autoBarWidth_def)
    moreover have "barWidthPercent cfg / 100 \<le> 1" using that(2) by simp
    ultimately have "autoBarWidth cfg bw * (barWidthPercent cfg / 100) \<le> autoBarWidth cfg bw * 1"
      by (rule mult_left_mono[rotated])
    then show ?thesis by (simp add: groupedBarWidth_def)
  qed
  have eq: "groupedBarWidth cfg bw = ((bw - barGapOf cfg) / 2) * (barWidthPercent cfg / 100)"
    by (simp only: groupedBarWidth_def autoBarWidth_def)
  show ?thesis
    unfolding w eq [symmetric] using cap by blast
qed

theorem grouped_bar_width_witness:
  "barStyle (defaultConfig\<lparr>barWidth := Some 50\<rparr>) = ''grouped'' \<and> (0::nat) < length rowsAB
   \<and> 0 \<le> barWidthPercent (defaultConfig\<lparr>barWidth := Some 50\<rparr>)
   \<and> barWidthPercent (defaultConfig\<lparr>barWidth := Some 50\<rparr>) \<le> 100
   \<and> barGapOf (defaultConfig\<lparr>barWidth := Some 50\<rparr>) \<le> 100
   \<and> r_width (b_final (bars1 (defaultConfig\<lparr>barWidth := Some 50\<rparr>) (\<lambda>_. 0) 100 (\<lambda>v. 300 - 2 * v) 300 rowsAB ! 0)) = 24
   \<and> r_width (b_final (bars1 (defaultConfig\<lparr>barWidth := Some 50\<rparr>) (\<lambda>_. 0) 100 (\<lambda>v. 300 - 2 * v) 300 rowsAB ! 0))
       \<le> autoBarWidth (defaultConfig\<lparr>barWidth := Some 50\<rparr>) 100"
proof -
  have a: "barStyle (defaultConfig\<lparr>barWidth := Some 50\<rparr>) = ''grouped''" by (simp add: defaultConfig_def)
  have b: "(0::nat) < length rowsAB" by (simp add: rowsAB_def)
  have c: "0 \<le> barWidthPercent (defaultConfig\<lparr>barWidth := Some 50\<rparr>)
           \<and> barWidthPercent (defaultConfig\<lparr>barWidth := Some 50\<rparr>) \<le> 100
           \<and> barGapOf (defaultConfig\<lparr>barWidth := Some 50\<rparr>) \<le> 100"
    by (simp add: barWidthPercent_def barGapOf_def defaultConfig_def)
  show ?thesis
    using grouped_bar_width [OF a b, of "\<lambda>_. 0" 100 "\<lambda>v. 300 - 2 * v" 300] a b c
    by (simp add: barWidthPercent_def barGapOf_def defaultConfig_def)
qed

text \<open>
  C8 as stated fails: with \<^verbatim>\<open>barWidth = 150\<close>, a band of 100 and the default gap of 4
  the bars are 72 wide, more than the half-band of 48.
\<close>

theorem grouped_bar_width_counterexample:
  "barStyle (defaultConfig\<lparr>barWidth := Some 150\<rparr>) = ''grouped''
   \<and> r_width (b_final (bars1 (defaultConfig\<lparr>barWidth := Some 150\<rparr>) (\<lambda>_. 0) 100 (\<lambda>v. 300 - 2 * v) 300 rowsAB ! 0)) = 72
   \<and> autoBarWidth (defaultConfig\<lparr>barWidth := Some 150\<rparr>) 100 = 48
   \<and> \<not> r_width (b_final (bars1 (defaultConfig\<lparr>barWidth := Some 150\<rparr>) (\<lambda>_. 0) 100 (\<lambda>v. 300 - 2 * v) 300 rowsAB ! 0))
         \<le> autoBarWidth (defaultConfig\<lparr>barWidth := Some 150\<rparr>) 100"
  by (simp add: bars1_def rowsAB_def mkRow_def defaultConfig_def b_final_mkBar groupedBarWidth_def
        autoBarWidth_def barWidthPercent_def barGapOf_def)

text \<open>
  C10 fails on the code. \<^verbatim>\<open>renderBars\<close> reads \<^verbatim>\<open>config.barWidth\<close> as a percentage of the
  half-band, \<^verbatim>\<open>renderLabels\<close> reads the same field as a width in pixels. With
  \<^verbatim>\<open>barWidth = 50\<close>, a band of 100 and the default gap the first bar spans 24..48
  (centre 36) and its label is placed at 24; with \<^verbatim>\<open>barWidth = 100\<close> and a band of 300
  the bar's centre is 74 and the label is at 98.
\<close>

theorem bar_label_off_centre:
  "rect_centre (b_final (bars1 (defaultConfig\<lparr>barWidth := Some 50, barLabels := (barLabels defaultConfig)\<lparr>bl_show := True\<rparr>\<rparr>)
                  (\<lambda>_. 0) 100 (\<lambda>v. 300 - 2 * v) 300 rowsAB ! 0)) = 36
   \<and> l_x (barLabels1 (defaultConfig\<lparr>barWidth := Some 50, barLabels := (barLabels defaultConfig)\<lparr>bl_show := True\<rparr>\<rparr>)
                  (\<lambda>_. 0) 100 (\<lambda>v. 300 - 2 * v) 300 rowsAB ! 0) = 24
   \<and> rect_centre (b_final (bars1 (defaultConfig\<lparr>barWidth := Some 100, barLabels := (barLabels defaultConfig)\<lparr>bl_show := True\<rparr>\<rparr>)
                  (\<lambda>_. 0) 300 (\<lambda>v. 300 - 2 * v) 300 rowsAB ! 0)) = 74
   \<and> l_x (barLabels1 (defaultConfig\<lparr>barWidth := Some 100, barLabels := (barLabels defaultConfig)\<lparr>bl_show := True\<rparr>\<rparr>)
                  (\<lambda>_. 0) 300 (\<lambda>v. 300 - 2 * v) 300 rowsAB ! 0) = 98"
  by (simp add: bars1_def barLabels1_def bar1LabelX_def labelBarWidth_def rect_centre_def rowsAB_def mkRow_def
        defaultConfig_def b_final_mkBar groupedBarWidth_def groupedGroupOffset_def autoBarWidth_def
        barWidthPercent_def barGapOf_def num_or_def font_or_def emptyFont_def Let_def)

section \<open>Properties of the scales\<close>

lemma createYScales_refs:
  "yScaleLeft (createYScales e cfg rows st) = Some (next_scale st)"
  "yScaleRight (createYScales e cfg rows st) =
     Some (if axisMode cfg = ''dual'' then Suc (next_scale st) else next_scale st)"
  by (simp_all add: createYScales_def newScale_def setDomainNice_def setRange_def Let_def)

lemma createYScales_left:
  "leftScaleOf (createYScales e cfg rows st) =
     Some \<lparr>sc_domain = niceDomain e (if axisMode cfg = ''dual''
                         then (if syncDualAxis cfg then syncDomain cfg rows else leftDomain cfg rows)
                         else sharedDomain cfg rows),
           sc_range = (height st, 0)\<rparr>"
  by (simp add: leftScaleOf_def createYScales_def newScale_def setDomainNice_def setRange_def Let_def)

lemma createYScales_right:
  "rightScaleOf (createYScales e cfg rows st) =
     Some \<lparr>sc_domain = niceDomain e (if axisMode cfg = ''dual''
                         then (if syncDualAxis cfg then syncDomain cfg rows else rightDomain cfg rows)
                         else sharedDomain cfg rows),
           sc_range = (if axisMode cfg = ''dual'' \<and> line_verticalPosition cfg \<noteq> []
                          \<and> line_verticalPosition cfg \<noteq> ''auto'' \<and> line_verticalPosition cfg \<noteq> ''top''
                       then (height st, double (height st * double (rangeTopFraction (line_verticalPosition cfg))))
                       else (height st, 0))\<rparr>"
  by (simp add: rightScaleOf_def createYScales_def newScale_def setDomainNice_def setRange_def Let_def)

lemma createYScales_other:
  "data (createYScales e cfg rows st) = data st"
  "arrays (createYScales e cfg rows st) = arrays st"
  "next_array (createYScales e cfg rows st) = next_array st"
  "originalData (createYScales e cfg rows st) = originalData st"
  "config (createYScales e cfg rows st) = config st"
  "fieldNames (createYScales e cfg rows st) = fieldNames st"
  "xScale (createYScales e cfg rows st) = xScale st"
  "lastLegendPosition (createYScales e cfg rows st) = lastLegendPosition st"
  "timers (createYScales e cfg rows st) = timers st"
  by (simp_all add: createYScales_def newScale_def setDomainNice_def setRange_def Let_def)

lemma createScales_Inr:
  assumes "createScales e st = Inr st'"
  obtains src cfg where "dataSource st = Ref src" and "config st = Ref cfg"
    and "st' = createYScales e cfg (sortRows e (sortOrderOf cfg) (arrays st src))
                 (st\<lparr>arrays := (arrays st)(next_array st := sortRows e (sortOrderOf cfg) (arrays st src)),
                      next_array := Suc (next_array st),
                      data := Ref (next_array st),
                      xScale := Some \<lparr>bs_domain = map dimension (sortRows e (sortOrderOf cfg) (arrays st src)),
                                      bs_range = (0, width st), bs_padding = barPadding cfg\<rparr>\<rparr>)"
  using assms
  by (auto simp: createScales_def newArray_def Let_def split: slot.splits)

lemma createScales_succeeds:
  assumes "dataSource st = Ref src" and "config st = Ref cfg"
  shows "\<exists>st'. createScales e st = Inr st'"
  using assms by (simp add: createScales_def newArray_def Let_def)

lemma createScales_currentRows:
  assumes "createScales e st = Inr st'" and "dataSource st = Ref src" and "config st = Ref cfg"
  shows "currentRows st' = sortRows e (sortOrderOf cfg) (arrays st src)"
    and "dimensionOrder st' = map dimension (sortRows e (sortOrderOf cfg) (arrays st src))"
    and "data st' = Ref (next_array st)"
    and "originalData st' = originalData st"
    and "next_array st' = Suc (next_array st)"
    and "arrays st' = (arrays st)(next_array st := sortRows e (sortOrderOf cfg) (arrays st src))"
    and "config st' = config st" and "fieldNames st' = fieldNames st"
  using assms
  by (auto elim!: createScales_Inr simp: currentRows_def dimensionOrder_def createYScales_other)

lemma createScales_scales:
  assumes "createScales e st = Inr st'" and "config st = Ref cfg"
  shows "leftScaleOf st' =
           Some \<lparr>sc_domain = niceDomain e (if axisMode cfg = ''dual''
                               then (if syncDualAxis cfg then syncDomain cfg (currentRows st')
                                     else leftDomain cfg (currentRows st'))
                               else sharedDomain cfg (currentRows st')),
                 sc_range = (height st, 0)\<rparr>"
    and "rightScaleOf st' =
           Some \<lparr>sc_domain = niceDomain e (if axisMode cfg = ''dual''
                               then (if syncDualAxis cfg then syncDomain cfg (currentRows st')
                                     else rightDomain cfg (currentRows st'))
                               else sharedDomain cfg (currentRows st')),
                 sc_range = (if axisMode cfg = ''dual'' \<and> line_verticalPosition cfg \<noteq> []
                                \<and> line_verticalPosition cfg \<noteq> ''auto'' \<and> line_verticalPosition cfg \<noteq> ''top''
                             then (height st, double (height st * double (rangeTopFraction (line_verticalPosition cfg))))
                             else (height st, 0))\<rparr>"
    and "yScaleLeft st' = Some (next_scale st)"
    and "yScaleRight st' = Some (if axisMode cfg = ''dual'' then Suc (next_scale st) else next_scale st)"
proof -
  from assms(1) obtain src cfg' where src: "dataSource st = Ref src" and cfg': "config st = Ref cfg'"
    and st': "st' = createYScales e cfg' (sortRows e (sortOrderOf cfg') (arrays st src))
                 (st\<lparr>arrays := (arrays st)(next_array st := sortRows e (sortOrderOf cfg') (arrays st src)),
                      next_array := Suc (next_array st),
                      data := Ref (next_array st),
                      xScale := Some \<lparr>bs_domain = map dimension (sortRows e (sortOrderOf cfg') (arrays st src)),
                                      bs_range = (0, width st), bs_padding = barPadding cfg'\<rparr>\<rparr>)"
    by (rule createScales_Inr)
  have eq: "cfg' = cfg" using cfg' assms(2) by simp
  have rows: "currentRows st' = sortRows e (sortOrderOf cfg) (arrays st src)"
    using createScales_currentRows(1) [OF assms(1) src assms(2)] .
  show "leftScaleOf st' =
           Some \<lparr>sc_domain = niceDomain e (if axisMode cfg = ''dual''
                               then (if syncDualAxis cfg then syncDomain cfg (currentRows st')
                                     else leftDomain cfg (currentRows st'))
                               else sharedDomain cfg (currentRows st')),
                 sc_range = (height st, 0)\<rparr>"
    unfolding rows by (simp add: st' eq createYScales_left)
  show "rightScaleOf st' =
           Some \<lparr>sc_domain = niceDomain e (if axisMode cfg = ''dual''
                               then (if syncDualAxis cfg then syncDomain cfg (currentRows st')
                                     else rightDomain cfg (currentRows st'))
                               else sharedDomain cfg (currentRows st')),
                 sc_range = (if axisMode cfg = ''dual'' \<and> line_verticalPosition cfg \<noteq> []
                                \<and> line_verticalPosition cfg \<noteq> ''auto'' \<and> line_verticalPosition cfg \<noteq> ''top''
                             then (height st, double (height st * double (rangeTopFraction (line_verticalPosition cfg))))
                             else (height st, 0))\<rparr>"
    unfolding rows by (simp add: st' eq createYScales_right)
  show "yScaleLeft st' = Some (next_scale st)"
    by (simp add: st' createYScales_refs)
  show "yScaleRight st' = Some (if axisMode cfg = ''dual'' then Suc (next_scale st) else next_scale st)"
    by (simp add: st' eq createYScales_refs)
qed

text \<open>
  C4. With \<^verbatim>\<open>axisMode = 'shared'\<close>, after \<^verbatim>\<open>createScales\<close> the right scale is the very
  object that is the left scale: the two slots hold the same reference, and so the same
  domain and range.
\<close>

theorem shared_right_is_left:
  assumes "config st = Ref cfg" and "axisMode cfg = ''shared''" and "createScales e st = Inr st'"
  shows "yScaleRight st' = yScaleLeft st' \<and> (\<exists>a. yScaleLeft st' = Some a)
         \<and> rightScaleOf st' = leftScaleOf st' \<and> (\<exists>sc. leftScaleOf st' = Some sc)"
proof -
  have nd: "axisMode cfg \<noteq> ''dual''" using assms(2) by simp
  have l: "yScaleLeft st' = Some (next_scale st)" and r: "yScaleRight st' = Some (next_scale st)"
    using createScales_scales(3,4) [OF assms(3) assms(1)] nd by simp_all
  show ?thesis
    using l r by (simp add: rightScaleOf_def leftScaleOf_def)
qed

theorem shared_right_is_left_witness:
  "\<exists>st'. config (storeArgs (Ref 0) (Ref namesAB) (Ref cfgSharedBounds) chartAB) = Ref cfgSharedBounds
     \<and> axisMode cfgSharedBounds = ''shared''
     \<and> createScales utcEnv (storeArgs (Ref 0) (Ref namesAB) (Ref cfgSharedBounds) chartAB) = Inr st'
     \<and> yScaleRight st' = yScaleLeft st' \<and> rightScaleOf st' = leftScaleOf st'
     \<and> (\<exists>sc. leftScaleOf st' = Some sc)"
proof -
  have c: "config (storeArgs (Ref 0) (Ref namesAB) (Ref cfgSharedBounds) chartAB) = Ref cfgSharedBounds"
    by (simp add: storeArgs_def Let_def)
  have m: "axisMode cfgSharedBounds = ''shared''"
    by (simp add: cfgSharedBounds_def)
  have "dataSource (storeArgs (Ref 0) (Ref namesAB) (Ref cfgSharedBounds) chartAB) = Ref 0"
    by (simp add: dataSource_def storeArgs_def chartAB_def newArray_def initialChart_def)
  then obtain st' where r: "createScales utcEnv (storeArgs (Ref 0) (Ref namesAB) (Ref cfgSharedBounds) chartAB) = Inr st'"
    using createScales_succeeds [OF _ c] by blast
  show ?thesis
    using shared_right_is_left [OF c m r] c m r by blast
qed

section \<open>Properties of render\<close>

lemma updateDimensions_other:
  "data (updateDimensions cw ch cfg st) = data st"
  "originalData (updateDimensions cw ch cfg st) = originalData st"
  "arrays (updateDimensions cw ch cfg st) = arrays st"
  "next_array (updateDimensions cw ch cfg st) = next_array st"
  "config (updateDimensions cw ch cfg st) = config st"
  "fieldNames (updateDimensions cw ch cfg st) = fieldNames st"
  "lastLegendPosition (updateDimensions cw ch cfg st) = lastLegendPosition st"
  "timers (updateDimensions cw ch cfg st) = timers st"
  by (simp_all add: updateDimensions_def Let_def)

lemma renderLegend_other:
  "data (renderLegend cfg st) = data st"
  "originalData (renderLegend cfg st) = originalData st"
  "arrays (renderLegend cfg st) = arrays st"
  "next_array (renderLegend cfg st) = next_array st"
  "config (renderLegend cfg st) = config st"
  "fieldNames (renderLegend cfg st) = fieldNames st"
  "xScale (renderLegend cfg st) = xScale st"
  "scales (renderLegend cfg st) = scales st"
  "yScaleLeft (renderLegend cfg st) = yScaleLeft st"
  "yScaleRight (renderLegend cfg st) = yScaleRight st"
  by (simp_all add: renderLegend_def Let_def split: option.splits)

lemma storeArgs_fields:
  "data (storeArgs d f c st) = d"
  "originalData (storeArgs d f c st) = (if d \<noteq> data st then d else originalData st)"
  "config (storeArgs d f c st) = c"
  "fieldNames (storeArgs d f c st) = f"
  "arrays (storeArgs d f c st) = arrays st"
  "next_array (storeArgs d f c st) = next_array st"
  "lastLegendPosition (storeArgs d f c st) = lastLegendPosition st"
  "timers (storeArgs d f c st) = timers st"
  by (simp_all add: storeArgs_def Let_def)

text \<open>The chart as \<^verbatim>\<open>createScales\<close> finds it in a render pass.\<close>

lemma render_Inr:
  assumes "render e cw ch d f c st = Inr st'"
  obtains cfg st4 st5 where "c = Ref cfg"
    and "data st4 = d" and "originalData st4 = (if d \<noteq> data st then d else originalData st)"
    and "config st4 = Ref cfg" and "fieldNames st4 = f"
    and "arrays st4 = arrays st" and "next_array st4 = next_array st"
    and "lastLegendPosition st4 = lastLegendPosition st" and "timers st4 = timers st"
    and "createScales e st4 = Inr st5"
    and "st' = (renderLegend cfg st5)\<lparr>isFirstRender := False\<rparr>"
proof -
  from assms obtain cfg where c: "c = Ref cfg"
    by (cases c) (simp_all add: render_def Let_def)
  define st4 where "st4 = updateDimensions cw ch cfg
      (if forceAnimationPreview cfg then (storeArgs d f c st)\<lparr>isFirstRender := True\<rparr> else storeArgs d f c st)"
  from assms c obtain st5 where cs: "createScales e st4 = Inr st5"
    and st': "st' = (renderLegend cfg st5)\<lparr>isFirstRender := False\<rparr>"
    by (auto simp: render_def Let_def st4_def split: sum.splits)
  have f: "data st4 = d" "originalData st4 = (if d \<noteq> data st then d else originalData st)"
       "config st4 = Ref cfg" "fieldNames st4 = f" "arrays st4 = arrays st" "next_array st4 = next_array st"
       "lastLegendPosition st4 = lastLegendPosition st" "timers st4 = timers st"
    by (simp_all add: st4_def updateDimensions_other storeArgs_fields c)
  show thesis
    by (rule that [OF c f(1) f(2) f(3) f(4) f(5) f(6) f(7) f(8) cs st'])
qed

lemma render_scales:
  assumes "render e cw ch d f (Ref cfg) st = Inr st'"
  shows "leftDomainOf st' =
           Some (niceDomain e (if axisMode cfg = ''dual''
                 then (if syncDualAxis cfg then syncDomain cfg (currentRows st')
                       else leftDomain cfg (currentRows st'))
                 else sharedDomain cfg (currentRows st')))"
    and "rightDomainOf st' =
           Some (niceDomain e (if axisMode cfg = ''dual''
                 then (if syncDualAxis cfg then syncDomain cfg (currentRows st')
                       else rightDomain cfg (currentRows st'))
                 else sharedDomain cfg (currentRows st')))"
proof -
  from assms obtain cfg' st4 st5 where c: "Ref cfg = Ref cfg'" and cfg4: "config st4 = Ref cfg'"
    and cs: "createScales e st4 = Inr st5" and st': "st' = (renderLegend cfg' st5)\<lparr>isFirstRender := False\<rparr>"
    by (rule render_Inr)
  have eq: "cfg' = cfg" using c by simp
  have rows: "currentRows st' = currentRows st5"
    by (simp add: st' currentRows_def renderLegend_other split: slot.splits)
  have l: "leftScaleOf st' = leftScaleOf st5" and r: "rightScaleOf st' = rightScaleOf st5"
    by (simp_all add: st' leftScaleOf_def rightScaleOf_def renderLegend_other)
  show "leftDomainOf st' =
           Some (niceDomain e (if axisMode cfg = ''dual''
                 then (if syncDualAxis cfg then syncDomain cfg (currentRows st')
                       else leftDomain cfg (currentRows st'))
                 else sharedDomain cfg (currentRows st')))"
    unfolding leftDomainOf_def l rows
    using createScales_scales(1) [OF cs cfg4] by (simp add: eq)
  show "rightDomainOf st' =
           Some (niceDomain e (if axisMode cfg = ''dual''
                 then (if syncDualAxis cfg then syncDomain cfg (currentRows st')
                       else rightDomain cfg (currentRows st'))
                 else sharedDomain cfg (currentRows st')))"
    unfolding rightDomainOf_def r rows
    using createScales_scales(2) [OF cs cfg4] by (simp add: eq)
qed

lemma render_succeeds:
  "\<exists>st'. render e cw ch (Ref a) f (Ref cfg) st = Inr st'"
proof -
  define st4 where "st4 = updateDimensions cw ch cfg
      (if forceAnimationPreview cfg then (storeArgs (Ref a) f (Ref cfg) st)\<lparr>isFirstRender := True\<rparr>
       else storeArgs (Ref a) f (Ref cfg) st)"
  have d: "data st4 = Ref a"
    by (simp add: st4_def updateDimensions_other storeArgs_fields)
  have "\<exists>src. dataSource st4 = Ref src"
    by (cases "originalData st4") (simp_all add: dataSource_def d)
  moreover have "config st4 = Ref cfg"
    by (simp add: st4_def updateDimensions_other storeArgs_fields)
  ultimately obtain st5 where "createScales e st4 = Inr st5"
    using createScales_succeeds by blast
  then show ?thesis
    by (simp add: render_def Let_def st4_def [symmetric])
qed

section \<open>Sorting keeps the rows\<close>

lemma mset_insert_cmp: "mset (insert_cmp c x ys) = add_mset x (mset ys)"
  by (induction ys) simp_all

lemma mset_sort_cmp: "mset (sort_cmp c xs) = mset xs"
  by (induction xs) (simp_all add: sort_cmp_def mset_insert_cmp)

lemma mset_sortRows: "mset (sortRows e so rows) = mset rows"
  by (simp add: sortRows_def mset_sort_cmp)




section \<open>One render pass and its re-renders\<close>

lemma render_rows:
  assumes "render e cw ch (Ref a) f (Ref cfg) st = Inr st'"
  shows "\<exists>src. dataSource (storeArgs (Ref a) f (Ref cfg) st) = Ref src
           \<and> currentRows st' = sortRows e (sortOrderOf cfg) (arrays st src)
           \<and> dimensionOrder st' = map dimension (sortRows e (sortOrderOf cfg) (arrays st src))
           \<and> arrays st' = (arrays st)(next_array st := sortRows e (sortOrderOf cfg) (arrays st src))"
    and "data st' = Ref (next_array st)"
    and "originalData st' = (if Ref a \<noteq> data st then Ref a else originalData st)"
    and "next_array st' = Suc (next_array st)"
    and "config st' = Ref cfg" and "fieldNames st' = f"
proof -
  from assms obtain cfg' st4 st5 where c: "Ref cfg = Ref cfg'"
    and f: "data st4 = Ref a" "originalData st4 = (if Ref a \<noteq> data st then Ref a else originalData st)"
           "config st4 = Ref cfg'" "fieldNames st4 = f" "arrays st4 = arrays st" "next_array st4 = next_array st"
    and cs: "createScales e st4 = Inr st5"
    and st': "st' = (renderLegend cfg' st5)\<lparr>isFirstRender := False\<rparr>"
    by (rule render_Inr)
  have eq: "cfg' = cfg" using c by simp
  from cs obtain src where src: "dataSource st4 = Ref src"
    by (auto elim: createScales_Inr)
  have src': "dataSource (storeArgs (Ref a) f (Ref cfg) st) = Ref src"
    using src f(1,2) by (auto simp: dataSource_def storeArgs_fields split: slot.splits if_splits)
  note r = createScales_currentRows [OF cs src f(3)]
  have proj: "currentRows st' = currentRows st5" "dimensionOrder st' = dimensionOrder st5"
    by (simp_all add: st' currentRows_def dimensionOrder_def renderLegend_other split: slot.splits)
  show "\<exists>src. dataSource (storeArgs (Ref a) f (Ref cfg) st) = Ref src
           \<and> currentRows st' = sortRows e (sortOrderOf cfg) (arrays st src)
           \<and> dimensionOrder st' = map dimension (sortRows e (sortOrderOf cfg) (arrays st src))
           \<and> arrays st' = (arrays st)(next_array st := sortRows e (sortOrderOf cfg) (arrays st src))"
    using src' r(1,2,6) proj by (auto simp: st' eq f renderLegend_other)
  show "data st' = Ref (next_array st)" using r(3) by (simp add: st' f renderLegend_other)
  show "originalData st' = (if Ref a \<noteq> data st then Ref a else originalData st)"
    using r(4) by (simp add: st' f renderLegend_other)
  show "next_array st' = Suc (next_array st)" using r(5) by (simp add: st' f renderLegend_other)
  show "config st' = Ref cfg" using r(7) by (simp add: st' f eq renderLegend_other)
  show "fieldNames st' = f" using r(8) by (simp add: st' f renderLegend_other)
qed

section \<open>Rounding and \<^verbatim>\<open>nice()\<close> at concrete values\<close>

lemma expUp_numeral:
  "expUp (numeral k) e x = (if x < 2 ^ Suc e then e else expUp (pred_numeral k) (Suc e) x)"
  by (simp add: numeral_eq_Suc)

lemma powUp_numeral:
  "powUp (numeral k) p x = (if x < 10 ^ Suc p then p else powUp (pred_numeral k) (Suc p) x)"
  by (simp add: numeral_eq_Suc)

lemma niceLoop_numeral:
  "niceLoop (numeral k) prestep start stop =
     (let step = tickIncrement start stop
      in if Some step = prestep then Some (start, stop)
         else if 0 < step
         then niceLoop (pred_numeral k) (Some step) (of_int \<lfloor>start / step\<rfloor> * step) (of_int \<lceil>stop / step\<rceil> * step)
         else if step < 0
         then niceLoop (pred_numeral k) (Some step) (of_int \<lceil>start * step\<rceil> / step) (of_int \<lfloor>stop * step\<rfloor> / step)
         else None)"
  by (simp add: numeral_eq_Suc)

lemmas eval_double = double_def exponent_def pow2_def roundEven_def Let_def expUp_numeral

lemmas eval_nice = d3Nice_def niceLoop_numeral tickIncrement_def power10_def powUp_numeral tickFactor_def Let_def

text \<open>The literal \<^verbatim>\<open>1.1\<close> is \<open>0x3FF199999999999A\<close>; \<^verbatim>\<open>100 * 1.1\<close> is one unit in the last
  place above 110, and \<^verbatim>\<open>-5 * 1.1\<close> is a tie that rounds to \<open>-5.5\<close>.\<close>

lemma double_literal: "double (11 / 10) = 4953959590107546 / 2 ^ 52"
  by (simp add: eval_double)


lemma times_minus_5: "num_times (Num (- 5)) 1.1 = Num (- 11 / 2)"
  by (simp add: double_literal) (simp add: eval_double)


lemma nice_minus_5: "d3Nice (Num (- 40), Num (- 11 / 2)) = (Num (- 40), Num (- 5))"
  by (simp add: eval_nice)

lemma nice_to_0: "d3Nice (Num (- 40), Num 0) = (Num (- 40), Num 0)"
  by (simp add: eval_nice)

section \<open>Configured axis bounds and the synchronised domain\<close>

text \<open>
  C1 fails on the code. \<^verbatim>\<open>createScales\<close> tests every configured bound with
  \<^verbatim>\<open>!== null\<close>, except the maximum in shared mode, which it tests with \<^verbatim>\<open>||\<close>: a
  configured maximum of 0 is falsy and is dropped there. With \<^verbatim>\<open>axisMode = 'shared'\<close>,
  \<^verbatim>\<open>yAxisLeft.min = -40\<close>, \<^verbatim>\<open>yAxisLeft.max = 0\<close> and rows whose values are all negative
  (largest \<open>-5\<close>), the scale is handed \<open>[-40, -5 * 1.1]\<close> and its domain is \<open>[-40, -5]\<close>;
  the configured 0 is not its upper bound. With the same bounds in dual mode the left
  domain is \<open>[-40, 0]\<close>, as the claim asks.
\<close>

theorem shared_zero_max_dropped:
  "axisMode cfgSharedZeroMax = ''shared''
   \<and> y_min (yAxisLeft cfgSharedZeroMax) = Some (- 40) \<and> y_max (yAxisLeft cfgSharedZeroMax) = Some 0
   \<and> sharedDomain cfgSharedZeroMax rowsNeg = (Num (- 40), Num (- 11 / 2))
   \<and> (case render utcEnv 800 600 (Ref 0) (Ref namesAB) (Ref cfgSharedZeroMax) (snd (newArray rowsNeg initialChart)) of
        Inr st' \<Rightarrow> leftDomainOf st' = Some (Num (- 40), Num (- 5))
                   \<and> rightDomainOf st' = Some (Num (- 40), Num (- 5))
      | Inl err \<Rightarrow> False)
   \<and> axisMode cfgDualZeroMax = ''dual''
   \<and> y_min (yAxisLeft cfgDualZeroMax) = Some (- 40) \<and> y_max (yAxisLeft cfgDualZeroMax) = Some 0
   \<and> (case render utcEnv 800 600 (Ref 0) (Ref namesAB) (Ref cfgDualZeroMax) (snd (newArray rowsNeg initialChart)) of
        Inr st' \<Rightarrow> leftDomainOf st' = Some (Num (- 40), Num 0)
      | Inl err \<Rightarrow> False)"
proof -
  have cm: "num_times (math_max (Num (- 5)) (Num (- 5))) 1.1 = Num (- 11 / 2)"
    using times_minus_5 by simp
  have sd: "sharedDomain cfgSharedZeroMax rowsNeg = (Num (- 40), Num (- 11 / 2))"
    using cm by (simp add: sharedDomain_def cfgSharedZeroMax_def rowsNeg_def mkRow_def defaultConfig_def
          defaultYAxis_def Let_def notNullOr_def truthyOr_def barMaxOf_def lineMaxOf_def)
  have ld: "leftDomain cfgDualZeroMax rowsNeg = (Num (- 40), Num 0)"
    by (simp add: leftDomain_def cfgDualZeroMax_def defaultConfig_def defaultYAxis_def Let_def notNullOr_def)
  obtain s1 where r1: "render utcEnv 800 600 (Ref 0) (Ref namesAB) (Ref cfgSharedZeroMax)
                         (snd (newArray rowsNeg initialChart)) = Inr s1"
    using render_succeeds by blast
  obtain s2 where r2: "render utcEnv 800 600 (Ref 0) (Ref namesAB) (Ref cfgDualZeroMax)
                         (snd (newArray rowsNeg initialChart)) = Inr s2"
    using render_succeeds by blast
  have so: "sortOrderOf cfgSharedZeroMax = ''default''" "sortOrderOf cfgDualZeroMax = ''default''"
    by (simp_all add: sortOrderOf_def cfgSharedZeroMax_def cfgDualZeroMax_def defaultConfig_def)
  have rows1: "currentRows s1 = rowsNeg"
    using render_rows(1) [OF r1] so(1)
    by (auto simp: dataSource_def storeArgs_fields newArray_def initialChart_def sortRows_def)
  have rows2: "currentRows s2 = rowsNeg"
    using render_rows(1) [OF r2] so(2)
    by (auto simp: dataSource_def storeArgs_fields newArray_def initialChart_def sortRows_def)
  have m1: "axisMode cfgSharedZeroMax = ''shared''" and m2: "axisMode cfgDualZeroMax = ''dual''"
    and ns: "\<not> syncDualAxis cfgDualZeroMax"
    by (simp_all add: cfgSharedZeroMax_def cfgDualZeroMax_def defaultConfig_def)
  have b: "y_min (yAxisLeft cfgSharedZeroMax) = Some (- 40)" "y_max (yAxisLeft cfgSharedZeroMax) = Some 0"
          "y_min (yAxisLeft cfgDualZeroMax) = Some (- 40)" "y_max (yAxisLeft cfgDualZeroMax) = Some 0"
    by (simp_all add: cfgSharedZeroMax_def cfgDualZeroMax_def defaultConfig_def defaultYAxis_def)
  have d1: "leftDomainOf s1 = Some (Num (- 40), Num (- 5))" "rightDomainOf s1 = Some (Num (- 40), Num (- 5))"
    using render_scales [OF r1] m1 nice_minus_5 by (simp_all add: rows1 sd utcEnv_def)
  have d2: "leftDomainOf s2 = Some (Num (- 40), Num 0)"
    using render_scales(1) [OF r2] m2 ns nice_to_0 by (simp add: rows2 ld utcEnv_def)
  show ?thesis
    using m1 m2 b sd d1 d2 by (simp add: r1 r2)
qed




subsection \<open>Re-rendering from the cached data\<close>

lemma chart_ok_initial: "chart_ok initialChart"
  by (simp add: chart_ok_def initialChart_def)

lemma chart_ok_newArray: "chart_ok st \<Longrightarrow> chart_ok (snd (newArray rows st))"
  by (auto simp: chart_ok_def newArray_def split: slot.splits)

lemma chart_ok_render:
  assumes "chart_ok st" and "a < next_array st" and "render e cw ch (Ref a) f (Ref cfg) st = Inr st'"
  shows "chart_ok st'"
proof -
  note r = render_rows(2-4) [OF assms(3)]
  show ?thesis
    using assms(1,2) unfolding chart_ok_def r
    by (auto split: slot.splits)
qed

lemma resize_step:
  assumes "originalData st = Ref src" and "src < next_array st" and "data st = Ref b" and "config st = Ref cfg"
  shows "\<exists>st'. resizeRerender e cw ch st = Inr st'
           \<and> originalData st' = Ref src \<and> src < next_array st' \<and> (\<exists>b'. data st' = Ref b')
           \<and> config st' = Ref cfg \<and> arrays st' src = arrays st src
           \<and> currentRows st' = sortRows e (sortOrderOf cfg) (arrays st src)
           \<and> dimensionOrder st' = map dimension (sortRows e (sortOrderOf cfg) (arrays st src))"
proof -
  have rr: "resizeRerender e cw ch st = render e cw ch (Ref b) (fieldNames st) (Ref cfg) st"
    by (simp add: resizeRerender_def assms(3,4))
  obtain st' where r: "render e cw ch (Ref b) (fieldNames st) (Ref cfg) st = Inr st'"
    using render_succeeds by blast
  have ds: "dataSource (storeArgs (Ref b) (fieldNames st) (Ref cfg) st) = Ref src"
    by (simp add: dataSource_def storeArgs_fields assms(1,3))
  from render_rows(1) [OF r] ds
  have rows: "currentRows st' = sortRows e (sortOrderOf cfg) (arrays st src)"
             "dimensionOrder st' = map dimension (sortRows e (sortOrderOf cfg) (arrays st src))"
             "arrays st' = (arrays st)(next_array st := sortRows e (sortOrderOf cfg) (arrays st src))"
    by auto
  have "arrays st' src = arrays st src" using assms(2) by (simp add: rows(3))
  moreover have "originalData st' = Ref src" using render_rows(3) [OF r] assms(1,3) by simp
  moreover have "src < next_array st'" using render_rows(4) [OF r] assms(2) by simp
  ultimately show ?thesis
    using rr r rows(1,2) render_rows(2,5) [OF r] by auto
qed

lemma resizeMany_same:
  assumes "originalData st = Ref src" and "src < next_array st" and "data st = Ref b" and "config st = Ref cfg"
      and "currentRows st = sortRows e (sortOrderOf cfg) (arrays st src)"
      and "dimensionOrder st = map dimension (sortRows e (sortOrderOf cfg) (arrays st src))"
  shows "\<exists>st'. resizeMany e sizes st = Inr st' \<and> currentRows st' = currentRows st
               \<and> dimensionOrder st' = dimensionOrder st"
  using assms
proof (induction sizes arbitrary: st b)
  case Nil
  then show ?case by simp
next
  case (Cons sz sizes)
  obtain cw ch where sz: "sz = (cw, ch)" by (cases sz)
  from resize_step [OF Cons.prems(1-4), of e cw ch]
  obtain st1 b' where s: "resizeRerender e cw ch st = Inr st1"
    and i: "originalData st1 = Ref src" "src < next_array st1" "data st1 = Ref b'" "config st1 = Ref cfg"
    and a: "arrays st1 src = arrays st src"
    and r: "currentRows st1 = sortRows e (sortOrderOf cfg) (arrays st src)"
           "dimensionOrder st1 = map dimension (sortRows e (sortOrderOf cfg) (arrays st src))"
    by blast
  from Cons.IH [OF i] r a
  obtain st' where "resizeMany e sizes st1 = Inr st'" "currentRows st' = currentRows st1"
      "dimensionOrder st' = dimensionOrder st1"
    by auto
  then show ?case
    using s r Cons.prems(5,6) by (simp add: sz)
qed

text \<open>
  C2. After a render pass, any number of resize-triggered re-renders (each passes the
  cached, already sorted \<^verbatim>\<open>this.data\<close>, field names and config) and also a second call
  of \<^verbatim>\<open>render\<close> with the same unsorted array and config leave the dimension order and
  the row order as the first pass produced them, for every sort order: each pass
  sorts the cached original array again, never an earlier pass's output.
\<close>

theorem rerender_same_order:
  assumes "chart_ok st" and "a < next_array st"
      and "render e cw ch (Ref a) f (Ref cfg) st = Inr st1"
  shows "(\<exists>st2. resizeMany e sizes st1 = Inr st2
            \<and> dimensionOrder st2 = dimensionOrder st1 \<and> currentRows st2 = currentRows st1)
         \<and> (data st \<noteq> Ref a \<longrightarrow>
              dimensionOrder st1 = map dimension (sortRows e (sortOrderOf cfg) (arrays st a))
              \<and> (\<exists>st2. render e cw' ch' (Ref a) f (Ref cfg) st1 = Inr st2
                    \<and> dimensionOrder st2 = dimensionOrder st1 \<and> currentRows st2 = currentRows st1))"
proof -
  from render_rows(1) [OF assms(3)]
  obtain src where ds: "dataSource (storeArgs (Ref a) f (Ref cfg) st) = Ref src"
    and rows: "currentRows st1 = sortRows e (sortOrderOf cfg) (arrays st src)"
              "dimensionOrder st1 = map dimension (sortRows e (sortOrderOf cfg) (arrays st src))"
              "arrays st1 = (arrays st)(next_array st := sortRows e (sortOrderOf cfg) (arrays st src))"
    by blast
  note r = render_rows(2-5) [OF assms(3)]
  have src: "originalData st1 = Ref src \<and> src < next_array st"
  proof (cases "Ref a \<noteq> data st")
    case True
    then show ?thesis using ds r(2) assms(2) by (simp add: dataSource_def storeArgs_fields)
  next
    case False
    then have "data st = Ref a" by simp
    with assms(1) obtain orig where "originalData st = Ref orig" "orig < next_array st"
      by (auto simp: chart_ok_def split: slot.splits)
    then show ?thesis using ds r(2) False by (simp add: dataSource_def storeArgs_fields)
  qed
  have keep: "arrays st1 src = arrays st src" using src by (simp add: rows(3))
  have part1: "\<exists>st2. resizeMany e sizes st1 = Inr st2
            \<and> dimensionOrder st2 = dimensionOrder st1 \<and> currentRows st2 = currentRows st1"
    using resizeMany_same [of st1 src "next_array st" cfg e sizes] src r rows(1,2) keep
    by auto
  have part2: "dimensionOrder st1 = map dimension (sortRows e (sortOrderOf cfg) (arrays st a))
              \<and> (\<exists>st2. render e cw' ch' (Ref a) f (Ref cfg) st1 = Inr st2
                    \<and> dimensionOrder st2 = dimensionOrder st1 \<and> currentRows st2 = currentRows st1)"
    if fresh: "data st \<noteq> Ref a"
  proof -
    have sa: "src = a" using ds fresh by (auto simp: dataSource_def storeArgs_fields)
    obtain st2 where r2: "render e cw' ch' (Ref a) f (Ref cfg) st1 = Inr st2"
      using render_succeeds by blast
    have ne: "Ref a \<noteq> data st1" using r(1) assms(2) by simp
    have "dataSource (storeArgs (Ref a) f (Ref cfg) st1) = Ref a"
      using ne by (simp add: dataSource_def storeArgs_fields)
    with render_rows(1) [OF r2]
    have "currentRows st2 = sortRows e (sortOrderOf cfg) (arrays st1 a)"
         "dimensionOrder st2 = map dimension (sortRows e (sortOrderOf cfg) (arrays st1 a))"
      by auto
    moreover have "arrays st1 a = arrays st a" using keep sa by simp
    ultimately show ?thesis using r2 rows(1,2) sa by simp
  qed
  show ?thesis using part1 part2 by blast
qed

theorem rerender_same_order_witness:
  "chart_ok chartAB \<and> (0::nat) < next_array chartAB \<and> data chartAB \<noteq> Ref 0
   \<and> (\<exists>st1. render utcEnv 800 600 (Ref 0) (Ref namesAB)
                (Ref (defaultConfig\<lparr>xAxis := (xAxis defaultConfig)\<lparr>x_sort := ''reverse''\<rparr>\<rparr>)) chartAB = Inr st1
         \<and> dimensionOrder st1 = [''B'', ''A'']
         \<and> (\<exists>st2. resizeMany utcEnv [(640, 480), (320, 240)] st1 = Inr st2 \<and> dimensionOrder st2 = [''B'', ''A'']))"
proof -
  have ok: "chart_ok chartAB" unfolding chartAB_def by (rule chart_ok_newArray [OF chart_ok_initial])
  have al: "(0::nat) < next_array chartAB" and fresh: "data chartAB \<noteq> Ref 0"
    by (simp_all add: chartAB_def newArray_def initialChart_def)
  obtain st1 where r: "render utcEnv 800 600 (Ref 0) (Ref namesAB)
                (Ref (defaultConfig\<lparr>xAxis := (xAxis defaultConfig)\<lparr>x_sort := ''reverse''\<rparr>\<rparr>)) chartAB = Inr st1"
    using render_succeeds by blast
  have ev: "map dimension (sortRows utcEnv (sortOrderOf (defaultConfig\<lparr>xAxis := (xAxis defaultConfig)\<lparr>x_sort := ''reverse''\<rparr>\<rparr>))
              (arrays chartAB 0)) = [''B'', ''A'']"
    by (simp add: sortRows_def sortOrderOf_def chartAB_def newArray_def initialChart_def rowsAB_def mkRow_def)
  show ?thesis
    using rerender_same_order [OF ok al r, of "[(640, 480), (320, 240)]" 800 600] ok al fresh r ev
    by auto
qed

subsection \<open>The deferred re-render after a legend move\<close>

lemma render_without_config:
  "render e cw ch d f Undefined st = Inl (TypeError ''cannot read properties of config (forceAnimationPreview)'')"
  by (simp add: render_def Let_def)

lemma legendRerender_throws:
  "lastLegendPosition st = Some position \<Longrightarrow>
   legendRerender e cw ch position st = Inl (TypeError ''cannot read properties of config (forceAnimationPreview)'')"
  by (simp add: legendRerender_def render_without_config)

lemma render_legend:
  assumes "render e cw ch d f (Ref cfg) st = Inr st'"
  shows "lastLegendPosition st' = lastLegendPosition (renderLegend cfg st)"
    and "timers st' = timers (renderLegend cfg st)"
proof -
  from assms obtain cfg' st4 st5 where c: "Ref cfg = Ref cfg'"
    and f: "lastLegendPosition st4 = lastLegendPosition st" "timers st4 = timers st"
    and cs: "createScales e st4 = Inr st5"
    and st': "st' = (renderLegend cfg' st5)\<lparr>isFirstRender := False\<rparr>"
    by (rule render_Inr)
  have eq: "cfg' = cfg" using c by simp
  have k: "lastLegendPosition st5 = lastLegendPosition st" "timers st5 = timers st"
    using cs f by (auto elim!: createScales_Inr simp: createYScales_other)
  show "lastLegendPosition st' = lastLegendPosition (renderLegend cfg st)"
    by (simp add: st' eq renderLegend_def Let_def k split: option.splits)
  show "timers st' = timers (renderLegend cfg st)"
    by (simp add: st' eq renderLegend_def Let_def k split: option.splits)
qed

text \<open>
  C9 fails on the code. Render the scenario's rows with the default configuration
  (legend at the bottom), then with the legend moved to the right: the second pass
  schedules the deferred re-render, and when it fires it calls \<^verbatim>\<open>this.render()\<close> with no
  arguments, so \<^verbatim>\<open>config\<close> is \<^verbatim>\<open>undefined\<close> and reading \<^verbatim>\<open>config.forceAnimationPreview\<close>
  throws a TypeError. The resize callback, by contrast, passes the cached arguments.
\<close>

theorem deferred_rerender_throws:
  "(case render utcEnv 800 600 (Ref 0) (Ref namesAB) (Ref defaultConfig) chartAB of
      Inl err \<Rightarrow> False
    | Inr st1 \<Rightarrow>
        (case render utcEnv 800 600 (Ref 0) (Ref namesAB) (Ref cfgLegendRight) st1 of
           Inl err \<Rightarrow> False
         | Inr st2 \<Rightarrow>
             timers st2 = [''right'']
             \<and> legendRerender utcEnv 800 600 ''right'' st2
                 = Inl (TypeError ''cannot read properties of config (forceAnimationPreview)'')))"
proof -
  obtain st1 where r1: "render utcEnv 800 600 (Ref 0) (Ref namesAB) (Ref defaultConfig) chartAB = Inr st1"
    using render_succeeds by blast
  obtain st2 where r2: "render utcEnv 800 600 (Ref 0) (Ref namesAB) (Ref cfgLegendRight) st1 = Inr st2"
    using render_succeeds by blast
  have l1: "lastLegendPosition st1 = Some ''bottom''" "timers st1 = []"
    using render_legend [OF r1]
    by (simp_all add: renderLegend_def Let_def defaultConfig_def chartAB_def newArray_def initialChart_def)
  have l2: "lastLegendPosition st2 = Some ''right''" "timers st2 = [''right'']"
    using render_legend [OF r2] l1
    by (simp_all add: renderLegend_def Let_def cfgLegendRight_def)
  show ?thesis
    using legendRerender_throws [OF l2(1)] l2(2) by (simp add: r1 r2)
qed

section \<open>Properties of the sort\<close>

lemma insert_cmp_insort:
  assumes "\<And>a b. (c a b \<le> 0) = (k a \<le> k b)"
  shows "insert_cmp c x ys = insort_key k x ys"
  by (induction ys) (simp_all add: assms)

lemma sort_cmp_sort_key:
  assumes "\<And>a b. (c a b \<le> 0) = (k a \<le> k b)"
  shows "sort_cmp c xs = sort_key k xs"
  by (induction xs) (simp_all add: sort_cmp_def sort_key_def insert_cmp_insort [OF assms])

lemma sortRows_dates:
  assumes "so = ''asc'' \<or> so = ''desc''" and "isDateData e rows"
  shows "sortRows e so rows = sort_key (\<lambda>r. if so = ''asc'' then dateKey e r else - dateKey e r) rows"
proof -
  have "sort_cmp (\<lambda>a b. if so = ''asc'' then dateKey e a - dateKey e b else dateKey e b - dateKey e a) rows
        = sort_key (\<lambda>r. if so = ''asc'' then dateKey e r else - dateKey e r) rows"
    by (rule sort_cmp_sort_key) auto
  then show ?thesis using assms by (simp add: sortRows_def)
qed

lemma set_insert_cmp: "set (insert_cmp c x ys) = insert x (set ys)"
  by (induction ys) auto

lemma sorted_wrt_insert_cmp:
  assumes tot: "\<And>a b. c a b \<le> 0 \<or> c b a \<le> 0"
      and trans: "\<And>a b d. c a b \<le> 0 \<Longrightarrow> c b d \<le> 0 \<Longrightarrow> c a d \<le> 0"
      and "sorted_wrt (\<lambda>a b. c a b \<le> 0) ys"
  shows "sorted_wrt (\<lambda>a b. c a b \<le> 0) (insert_cmp c x ys)"
  using assms(3)
proof (induction ys)
  case Nil
  then show ?case by simp
next
  case (Cons y ys)
  show ?case
  proof (cases "c x y \<le> 0")
    case True
    then have "\<forall>z\<in>set ys. c x z \<le> 0" using Cons.prems trans by auto
    then show ?thesis using True Cons.prems by simp
  next
    case False
    then have "c y x \<le> 0" using tot [of x y] by simp
    then show ?thesis using False Cons by (auto simp: set_insert_cmp)
  qed
qed

lemma sorted_wrt_sort_cmp:
  assumes "\<And>a b. c a b \<le> 0 \<or> c b a \<le> 0"
      and "\<And>a b d. c a b \<le> 0 \<Longrightarrow> c b d \<le> 0 \<Longrightarrow> c a d \<le> 0"
  shows "sorted_wrt (\<lambda>a b. c a b \<le> 0) (sort_cmp c xs)"
proof (induction xs)
  case Nil
  then show ?case by (simp add: sort_cmp_def)
next
  case (Cons x xs)
  have "sort_cmp c (x # xs) = insert_cmp c x (sort_cmp c xs)" by (simp add: sort_cmp_def)
  then show ?case using sorted_wrt_insert_cmp [OF assms Cons.IH] by simp
qed

lemma sortRows_locale:
  assumes "so = ''asc'' \<or> so = ''desc''" and "\<not> isDateData e rows"
      and anti: "\<And>a b. (localeCompare e a b \<le> 0) = (0 \<le> localeCompare e b a)"
      and trans: "\<And>a b d. localeCompare e a b \<le> 0 \<Longrightarrow> localeCompare e b d \<le> 0 \<Longrightarrow> localeCompare e a d \<le> 0"
  shows "sorted_wrt (\<lambda>a b. if so = ''asc'' then localeCompare e (dimension a) (dimension b) \<le> 0
                            else localeCompare e (dimension b) (dimension a) \<le> 0) (sortRows e so rows)"
proof (cases "so = ''asc''")
  case True
  have "sorted_wrt (\<lambda>a b. localeCompare e (dimension a) (dimension b) \<le> 0)
          (sort_cmp (\<lambda>a b. localeCompare e (dimension a) (dimension b)) rows)"
  proof (rule sorted_wrt_sort_cmp)
    fix a b :: row
    show "localeCompare e (dimension a) (dimension b) \<le> 0 \<or> localeCompare e (dimension b) (dimension a) \<le> 0"
      using anti [of "dimension b" "dimension a"] by linarith
  next
    fix a b d :: row
    assume "localeCompare e (dimension a) (dimension b) \<le> 0" "localeCompare e (dimension b) (dimension d) \<le> 0"
    then show "localeCompare e (dimension a) (dimension d) \<le> 0" by (rule trans)
  qed
  then show ?thesis using True assms(2) by (simp add: sortRows_def)
next
  case False
  then have d: "so = ''desc''" using assms(1) by simp
  have "sorted_wrt (\<lambda>a b. - localeCompare e (dimension a) (dimension b) \<le> 0)
          (sort_cmp (\<lambda>a b. - localeCompare e (dimension a) (dimension b)) rows)"
  proof (rule sorted_wrt_sort_cmp)
    fix a b :: row
    show "- localeCompare e (dimension a) (dimension b) \<le> 0 \<or> - localeCompare e (dimension b) (dimension a) \<le> 0"
      using anti [of "dimension b" "dimension a"] by linarith
  next
    fix a b d :: row
    assume "- localeCompare e (dimension a) (dimension b) \<le> 0" "- localeCompare e (dimension b) (dimension d) \<le> 0"
    then have "localeCompare e (dimension d) (dimension b) \<le> 0" "localeCompare e (dimension b) (dimension a) \<le> 0"
      using anti [of "dimension b" "dimension a"] anti [of "dimension d" "dimension b"] by simp_all
    then have "localeCompare e (dimension d) (dimension a) \<le> 0" by (rule trans)
    then show "- localeCompare e (dimension a) (dimension d) \<le> 0"
      using anti [of "dimension d" "dimension a"] by simp
  qed
  then have "sorted_wrt (\<lambda>a b. localeCompare e (dimension b) (dimension a) \<le> 0)
          (sort_cmp (\<lambda>a b. - localeCompare e (dimension a) (dimension b)) rows)"
  proof (rule sorted_wrt_mono_rel [rotated])
    fix x y :: row
    assume "- localeCompare e (dimension x) (dimension y) \<le> 0"
    then show "localeCompare e (dimension y) (dimension x) \<le> 0"
      using anti [of "dimension y" "dimension x"] by simp
  qed
  then show ?thesis using d assms(2) by (simp add: sortRows_def)
qed

lemma unparseable_position:
  assumes "sorted (map (dateKey e) res)" and "i < length res" and "j < length res"
      and "parseDate e (dimension (res ! i)) = None"
      and "parseDate e (dimension (res ! j)) = Some t"
  shows "(0 < t \<longrightarrow> i < j) \<and> (t < 0 \<longrightarrow> j < i)"
proof -
  have ki: "dateKey e (res ! i) = 0" and kj: "dateKey e (res ! j) = t"
    using assms(4,5) by (simp_all add: dateKey_def)
  have ne: "i \<noteq> j" using assms(4,5) by auto
  have mono: "\<And>p q. p \<le> q \<Longrightarrow> q < length res \<Longrightarrow> dateKey e (res ! p) \<le> dateKey e (res ! q)"
    using assms(1) by (simp add: sorted_iff_nth_mono)
  show ?thesis
  proof (cases "i < j")
    case True
    then have "0 \<le> t" using mono [of i j] assms(3) ki kj by simp
    then show ?thesis using True by simp
  next
    case False
    then have "j < i" using ne by simp
    then have "t \<le> 0" using mono [of j i] assms(2) ki kj by simp
    then show ?thesis using \<open>j < i\<close> by simp
  qed
qed

lemma three_dates_sorted:
  assumes p: "parseDate e sj = Some tj" "parseDate e sf = Some tf" "parseDate e sm = Some tm"
      and lt: "tj < tf" "tf < tm"
      and ms: "mset (map dimension rows) = {#sj, sf, sm#}"
  shows "map dimension (sortRows e ''asc'' rows) = [sj, sf, sm]"
proof -
  define T where "T = (\<lambda>s. case parseDate e s of Some t \<Rightarrow> t | None \<Rightarrow> (0::int))"
  have T: "T sj = tj" "T sf = tf" "T sm = tm"
    using p by (simp_all add: T_def)
  have key: "dateKey e = T \<circ> dimension" by (auto simp: dateKey_def T_def)
  have ds: "set (map dimension rows) = {sj, sf, sm}"
    using arg_cong [OF ms, of set_mset] by simp
  have len: "length rows = 3" using arg_cong [OF ms, of size] by simp
  have all: "parseDate e (dimension d) \<noteq> None" if "d \<in> set rows" for d
  proof -
    from that have "dimension d \<in> set (map dimension rows)" by simp
    then have "dimension d = sj \<or> dimension d = sf \<or> dimension d = sm" unfolding ds by blast
    then show ?thesis using p by auto
  qed
  have "filter (\<lambda>d. d \<noteq> None) (map (\<lambda>d. parseDate e (dimension d)) rows)
          = map (\<lambda>d. parseDate e (dimension d)) rows"
    using all by (simp add: filter_id_conv)
  then have dd: "isDateData e rows" using len by (simp add: isDateData_def)
  define res where "res = sortRows e ''asc'' rows"
  have res: "res = sort_key (dateKey e) rows"
    using sortRows_dates [of "''asc''" e rows] dd by (simp add: res_def)
  have "sorted (map (dateKey e) res)"
    unfolding res by (rule sorted_sort_key)
  then have srt: "sorted (map T (map dimension res))"
    by (simp add: key)
  have mres: "mset (map dimension res) = {#sj, sf, sm#}"
    using ms by (simp add: res)
  have mt: "mset (map T (map dimension res)) = mset [tj, tf, tm]"
    using arg_cong [OF mres, of "image_mset T"] T by (simp add: multiset.map_comp)
  have "map T (map dimension res) = [tj, tf, tm]"
  proof (rule sorted_distinct_set_unique)
    show "sorted (map T (map dimension res))" by (rule srt)
    show "sorted [tj, tf, tm]" using lt by simp
    show "distinct [tj, tf, tm]" using lt by simp
    then show "distinct (map T (map dimension res))"
      using mset_eq_imp_distinct_iff [OF mt] by blast
    show "set (map T (map dimension res)) = set [tj, tf, tm]"
      using mset_eq_setD [OF mt] .
  qed
  then have eq: "map T (map dimension res) = map T [sj, sf, sm]"
    using T by simp
  have sres: "set (map dimension res) = {sj, sf, sm}"
    using arg_cong [OF mres, of set_mset] by simp
  have "inj_on T {sj, sf, sm}"
    using T lt by (auto simp: inj_on_def)
  then have "inj_on T (set (map dimension res) \<union> set [sj, sf, sm])"
    unfolding sres by simp
  then have "map dimension res = [sj, sf, sm]"
    using eq by (simp only: inj_on_map_eq_map)
  then show ?thesis by (simp add: res_def)
qed

text \<open>
  C6, as the code has it. For \<^verbatim>\<open>sort = 'asc'\<close> or \<^verbatim>\<open>'desc'\<close>: the column counts as dates
  exactly when at least two of the first three dimension values parse (natively, or
  through the month-year fallback of \<open>parseDate\<close>); the result is always a
  rearrangement of the rows; a date column is stably sorted by timestamp (negated for
  \<^verbatim>\<open>'desc'\<close>), an unparseable value counting as timestamp 0, so that ascending it comes
  before every row dated after the epoch and after every row dated before it; any
  other column is ordered by \<^verbatim>\<open>localeCompare\<close> (for a comparison that is antisymmetric
  and transitive); and rows whose dimensions are Jan 2024, Feb 2024 and Mar 2024, in any
  order, come out chronologically when the engine's \<^verbatim>\<open>Date\<close> reads them in that order of
  time.
\<close>

theorem sort_asc_desc:
  assumes "so = ''asc'' \<or> so = ''desc''"
  shows "(isDateData e rows \<longleftrightarrow> 2 \<le> length (filter (\<lambda>d. parseDate e (dimension d) \<noteq> None) (take 3 rows)))
       \<and> mset (sortRows e so rows) = mset rows
       \<and> (isDateData e rows \<longrightarrow>
            sortRows e so rows = sort_key (\<lambda>r. if so = ''asc'' then dateKey e r else - dateKey e r) rows
            \<and> sorted (map (\<lambda>r. if so = ''asc'' then dateKey e r else - dateKey e r) (sortRows e so rows))
            \<and> (so = ''asc'' \<longrightarrow>
                 (\<forall>i j t. i < length rows \<longrightarrow> j < length rows \<longrightarrow>
                    parseDate e (dimension (sortRows e so rows ! i)) = None \<longrightarrow>
                    parseDate e (dimension (sortRows e so rows ! j)) = Some t \<longrightarrow>
                    (0 < t \<longrightarrow> i < j) \<and> (t < 0 \<longrightarrow> j < i))))
       \<and> (\<forall>r. parseDate e (dimension r) = None \<longrightarrow> dateKey e r = 0)
       \<and> (\<not> isDateData e rows \<longrightarrow>
            (\<forall>a b. (localeCompare e a b \<le> 0) = (0 \<le> localeCompare e b a)) \<longrightarrow>
            (\<forall>a b d. localeCompare e a b \<le> 0 \<longrightarrow> localeCompare e b d \<le> 0 \<longrightarrow> localeCompare e a d \<le> 0) \<longrightarrow>
            sorted_wrt (\<lambda>a b. if so = ''asc'' then localeCompare e (dimension a) (dimension b) \<le> 0
                               else localeCompare e (dimension b) (dimension a) \<le> 0) (sortRows e so rows))
       \<and> (so = ''asc'' \<longrightarrow>
            (\<forall>tj tf tm. parseDate e ''Jan 2024'' = Some tj \<longrightarrow> parseDate e ''Feb 2024'' = Some tf \<longrightarrow>
               parseDate e ''Mar 2024'' = Some tm \<longrightarrow> tj < tf \<longrightarrow> tf < tm \<longrightarrow>
               mset (map dimension rows) = {#''Jan 2024'', ''Feb 2024'', ''Mar 2024''#} \<longrightarrow>
               map dimension (sortRows e so rows) = [''Jan 2024'', ''Feb 2024'', ''Mar 2024'']))"
proof -
  have p1: "isDateData e rows \<longleftrightarrow> 2 \<le> length (filter (\<lambda>d. parseDate e (dimension d) \<noteq> None) (take 3 rows))"
    by (simp add: isDateData_def filter_map comp_def)
  have p2: "mset (sortRows e so rows) = mset rows" by (rule mset_sortRows)
  have len: "length (sortRows e so rows) = length rows"
    using arg_cong [OF p2, of size] by simp
  have p3: "sortRows e so rows = sort_key (\<lambda>r. if so = ''asc'' then dateKey e r else - dateKey e r) rows
            \<and> sorted (map (\<lambda>r. if so = ''asc'' then dateKey e r else - dateKey e r) (sortRows e so rows))
            \<and> (so = ''asc'' \<longrightarrow>
                 (\<forall>i j t. i < length rows \<longrightarrow> j < length rows \<longrightarrow>
                    parseDate e (dimension (sortRows e so rows ! i)) = None \<longrightarrow>
                    parseDate e (dimension (sortRows e so rows ! j)) = Some t \<longrightarrow>
                    (0 < t \<longrightarrow> i < j) \<and> (t < 0 \<longrightarrow> j < i)))"
    if dd: "isDateData e rows"
  proof -
    have a: "sortRows e so rows = sort_key (\<lambda>r. if so = ''asc'' then dateKey e r else - dateKey e r) rows"
      by (rule sortRows_dates [OF assms dd])
    have b: "sorted (map (\<lambda>r. if so = ''asc'' then dateKey e r else - dateKey e r) (sortRows e so rows))"
      unfolding a by (rule sorted_sort_key)
    have c: "(0 < t \<longrightarrow> i < j) \<and> (t < 0 \<longrightarrow> j < i)"
      if "so = ''asc''" "i < length rows" "j < length rows"
         "parseDate e (dimension (sortRows e so rows ! i)) = None"
         "parseDate e (dimension (sortRows e so rows ! j)) = Some t" for i j t
    proof -
      have "sorted (map (dateKey e) (sortRows e so rows))" using b that(1) by simp
      then show ?thesis
        using unparseable_position [of e "sortRows e so rows" i j t] that(2-5) len by simp
    qed
    show ?thesis using a b c by blast
  qed
  have p4: "\<forall>r. parseDate e (dimension r) = None \<longrightarrow> dateKey e r = 0"
    by (simp add: dateKey_def)
  have p5: "sorted_wrt (\<lambda>a b. if so = ''asc'' then localeCompare e (dimension a) (dimension b) \<le> 0
                               else localeCompare e (dimension b) (dimension a) \<le> 0) (sortRows e so rows)"
    if "\<not> isDateData e rows"
       "\<forall>a b. (localeCompare e a b \<le> 0) = (0 \<le> localeCompare e b a)"
       "\<forall>a b d. localeCompare e a b \<le> 0 \<longrightarrow> localeCompare e b d \<le> 0 \<longrightarrow> localeCompare e a d \<le> 0"
    by (rule sortRows_locale [OF assms that(1)]) (use that(2,3) in blast)+
  have p6: "map dimension (sortRows e so rows) = [''Jan 2024'', ''Feb 2024'', ''Mar 2024'']"
    if "so = ''asc''" "parseDate e ''Jan 2024'' = Some tj" "parseDate e ''Feb 2024'' = Some tf"
       "parseDate e ''Mar 2024'' = Some tm" "tj < tf" "tf < tm"
       "mset (map dimension rows) = {#''Jan 2024'', ''Feb 2024'', ''Mar 2024''#}" for tj tf tm
    unfolding that(1) by (rule three_dates_sorted [OF that(2-7)])
  show ?thesis
    using p1 p2 p3 p4 p5 p6 by blast
qed

lemma codeCompare_anti: "(codeCompare a b \<le> 0) = (0 \<le> codeCompare b a)"
  by (induction a b rule: codeCompare.induct) auto

lemma codeCompare_trans:
  "codeCompare a b \<le> 0 \<Longrightarrow> codeCompare b d \<le> 0 \<Longrightarrow> codeCompare a d \<le> 0"
proof (induction a b arbitrary: d rule: codeCompare.induct)
  case 1
  then show ?case by simp
next
  case (2 y ys)
  then show ?case by (cases d) simp_all
next
  case (3 x xs)
  then show ?case by simp
next
  case (4 x xs y ys)
  show ?case
  proof (cases d)
    case Nil
    then show ?thesis using "4.prems" by simp
  next
    case (Cons z zs)
    show ?thesis
      using "4.prems" "4.IH" [of zs] unfolding Cons
      by (auto split: if_splits)
  qed
qed

lemma utc_dates:
  "parseDate utcEnv ''Jan 2024'' = Some 1704067200000"
  "parseDate utcEnv ''Feb 2024'' = Some 1706745600000"
  "parseDate utcEnv ''Mar 2024'' = Some 1709251200000"
  "parseDate utcEnv ''1950-01-01'' = Some (- 631152000000)"
  "parseDate utcEnv ''1960-01-01'' = Some (- 315619200000)"
  "parseDate utcEnv ''N/A'' = None"
  "parseDate utcEnv ''A'' = None"
  "parseDate utcEnv ''B'' = None"
  by (simp_all add: parseDate_def utcEnv_def utcParse_def monthYear_def is_word_def is_digit_def
        is_space_def Let_def)

lemma sorted_rowsOld:
  "isDateData utcEnv rowsOld"
  "sortRows utcEnv ''asc'' rowsOld = [mkRow ''1950-01-01'' 7 8 9, mkRow ''1960-01-01'' 4 5 6, mkRow ''N/A'' 1 2 3]"
proof -
  have d: "dimension (mkRow s x y z) = s" for s x y z by (simp add: mkRow_def)
  show dd: "isDateData utcEnv rowsOld"
    by (simp add: isDateData_def rowsOld_def d utc_dates)
  have k: "dateKey utcEnv (mkRow ''N/A'' 1 2 3) = 0"
          "dateKey utcEnv (mkRow ''1960-01-01'' 4 5 6) = - 315619200000"
          "dateKey utcEnv (mkRow ''1950-01-01'' 7 8 9) = - 631152000000"
    by (simp_all add: dateKey_def d utc_dates)
  show "sortRows utcEnv ''asc'' rowsOld = [mkRow ''1950-01-01'' 7 8 9, mkRow ''1960-01-01'' 4 5 6, mkRow ''N/A'' 1 2 3]"
    using dd by (simp add: sortRows_def sort_cmp_def k) (simp add: rowsOld_def k)
qed

text \<open>
  C6 as stated fails where it says that unparseable entries sort first in ascending
  order: next to two dates before 1970, whose timestamps are negative, the
  unparseable \<^verbatim>\<open>N/A\<close> (timestamp 0) comes last.
\<close>

theorem sort_asc_desc_counterexample:
  "isDateData utcEnv rowsOld \<and> parseDate utcEnv ''N/A'' = None
   \<and> map dimension rowsOld = [''N/A'', ''1960-01-01'', ''1950-01-01'']
   \<and> map dimension (sortRows utcEnv ''asc'' rowsOld) = [''1950-01-01'', ''1960-01-01'', ''N/A'']"
  by (simp add: sorted_rowsOld utc_dates) (simp add: rowsOld_def mkRow_def)

theorem sort_asc_desc_witness:
  "(''asc'' = ''asc'' \<or> ''asc'' = ''desc'')
   \<and> parseDate utcEnv ''Jan 2024'' = Some 1704067200000
   \<and> mset (map dimension rowsMonths) = {#''Jan 2024'', ''Feb 2024'', ''Mar 2024''#}
   \<and> map dimension (sortRows utcEnv ''asc'' rowsMonths) = [''Jan 2024'', ''Feb 2024'', ''Mar 2024'']
   \<and> isDateData utcEnv rowsOld
   \<and> sortRows utcEnv ''asc'' rowsOld = sort_key (dateKey utcEnv) rowsOld
   \<and> \<not> isDateData utcEnv rowsAB
   \<and> sorted_wrt (\<lambda>a b. localeCompare utcEnv (dimension b) (dimension a) \<le> 0) (sortRows utcEnv ''desc'' rowsAB)"
proof -
  have a: "''asc'' = ''asc'' \<or> ''asc'' = ''desc''" and d: "''desc'' = ''asc'' \<or> ''desc'' = ''desc''"
    by simp_all
  have m: "mset (map dimension rowsMonths) = {#''Jan 2024'', ''Feb 2024'', ''Mar 2024''#}"
    by (simp add: rowsMonths_def mkRow_def)
  have lt: "(1704067200000::int) < 1706745600000" "(1706745600000::int) < 1709251200000" by simp_all
  have w1: "map dimension (sortRows utcEnv ''asc'' rowsMonths) = [''Jan 2024'', ''Feb 2024'', ''Mar 2024'']"
    using sort_asc_desc [OF a, of utcEnv rowsMonths] utc_dates(1-3) lt m by blast
  have w2: "sortRows utcEnv ''asc'' rowsOld = sort_key (dateKey utcEnv) rowsOld"
    using sort_asc_desc [OF a, of utcEnv rowsOld] sorted_rowsOld(1) by simp
  have nd: "\<not> isDateData utcEnv rowsAB"
    by (simp add: isDateData_def rowsAB_def mkRow_def utc_dates)
  have lc: "localeCompare utcEnv = codeCompare" by (simp add: utcEnv_def)
  have anti: "\<forall>a b. (localeCompare utcEnv a b \<le> 0) = (0 \<le> localeCompare utcEnv b a)"
    unfolding lc using codeCompare_anti by blast
  have trans: "\<forall>a b d. localeCompare utcEnv a b \<le> 0 \<longrightarrow> localeCompare utcEnv b d \<le> 0
                 \<longrightarrow> localeCompare utcEnv a d \<le> 0"
    unfolding lc using codeCompare_trans by blast
  have w3: "sorted_wrt (\<lambda>a b. localeCompare utcEnv (dimension b) (dimension a) \<le> 0)
              (sortRows utcEnv ''desc'' rowsAB)"
    using sort_asc_desc [OF d, of utcEnv rowsAB] nd anti trans by simp
  show ?thesis
    using a utc_dates(1) m w1 sorted_rowsOld(1) w2 nd w3 by blast
qed

section \<open>Properties of the deep merge\<close>

lemma map_of_replaceEntry:
  "map_of kvs k \<noteq> None \<Longrightarrow> map_of (replaceEntry k v kvs) = (map_of kvs)(k \<mapsto> v)"
  by (induction kvs) (auto simp: fun_eq_iff)

lemma map_of_insertIndexed:
  "map_of kvs k = None \<Longrightarrow> map_of (insertIndexed i k v kvs) = (map_of kvs)(k \<mapsto> v)"
  by (induction kvs) (auto simp: fun_eq_iff split: option.splits if_splits)

lemma map_of_append_new:
  "map_of kvs k = None \<Longrightarrow> map_of (kvs @ [(k, v)]) = (map_of kvs)(k \<mapsto> v)"
  by (auto simp: fun_eq_iff map_add_def split: option.splits)

lemma map_of_assign: "map_of (assign k v kvs) = (map_of kvs)(k \<mapsto> v)"
proof (cases "map_of kvs k")
  case None
  then show ?thesis
    by (cases "arrayIndex k")
       (auto simp: assign_def map_of_insertIndexed fun_eq_iff map_add_def split: option.splits)
next
  case (Some w)
  then show ?thesis by (simp add: assign_def map_of_replaceEntry)
qed

lemma mergeKeys_spec:
  assumes "distinct ks"
      and "\<And>k. k \<in> set ks \<Longrightarrow> k \<notin> set protoNames"
      and "\<And>k sub. k \<in> set ks \<Longrightarrow> map_of ov k = Some (JObj sub)
             \<Longrightarrow> \<exists>m. merge strict (orEmpty (map_of res k)) sub = Merged m"
  shows "\<exists>res'. mergeKeys strict ov ks res = Merged (JObj res')
           \<and> (\<forall>k. map_of res' k = (if k \<in> set ks then specEntry strict res ov k else map_of res k))"
  using assms
proof (induction ks arbitrary: res)
  case Nil
  then show ?case by simp
next
  case (Cons key keys)
  have dk: "distinct keys" and nk: "key \<notin> set keys" using Cons.prems(1) by simp_all
  have np: "\<not> inherited r key" for r using Cons.prems(2) [of key] by (simp add: inherited_def)
  have nps: "\<And>k. k \<in> set keys \<Longrightarrow> k \<notin> set protoNames" using Cons.prems(2) by simp
  define res1 where "res1 =
     (case map_of ov key of
        Some (JObj sub) \<Rightarrow> (case merge strict (orEmpty (map_of res key)) sub of
                              Merged m \<Rightarrow> assign key m res | _ \<Rightarrow> res)
      | Some v \<Rightarrow> assign key v res
      | None \<Rightarrow> res)"
  have step: "mergeKeys strict ov (key # keys) res = mergeKeys strict ov keys res1"
  proof (cases "map_of ov key")
    case None
    then show ?thesis by (simp add: res1_def)
  next
    case (Some v)
    show ?thesis
    proof (cases v)
      case (JObj sub)
      with Some Cons.prems(3) [of key sub] obtain m
        where "merge strict (orEmpty (map_of res key)) sub = Merged m" by auto
      then show ?thesis using Some JObj np by (simp add: res1_def)
    qed (simp_all add: Some res1_def np)
  qed
  have here: "map_of res1 key = specEntry strict res ov key"
  proof (cases "map_of ov key")
    case None
    then show ?thesis by (simp add: res1_def specEntry_def)
  next
    case (Some v)
    show ?thesis
    proof (cases v)
      case (JObj sub)
      with Some Cons.prems(3) [of key sub] obtain m
        where "merge strict (orEmpty (map_of res key)) sub = Merged m" by auto
      then show ?thesis using Some JObj by (simp add: res1_def specEntry_def map_of_assign)
    qed (simp_all add: Some res1_def specEntry_def map_of_assign)
  qed
  have other: "map_of res1 k = map_of res k" if "k \<noteq> key" for k
    using that by (auto simp: res1_def map_of_assign split: option.splits json.splits merged.splits)
  have spec_same: "specEntry strict res1 ov k = specEntry strict res ov k" if "k \<noteq> key" for k
    using other [OF that] by (simp add: specEntry_def split: option.splits json.splits)
  have pre: "\<exists>m. merge strict (orEmpty (map_of res1 k)) sub = Merged m"
    if "k \<in> set keys" "map_of ov k = Some (JObj sub)" for k sub
  proof -
    have "k \<noteq> key" using that(1) nk by auto
    then show ?thesis using Cons.prems(3) [of k sub] that other by simp
  qed
  from Cons.IH [OF dk nps pre] obtain res' where
    r: "mergeKeys strict ov keys res1 = Merged (JObj res')"
    and m: "\<forall>k. map_of res' k = (if k \<in> set keys then specEntry strict res1 ov k else map_of res1 k)"
    by blast
  have "map_of res' k = (if k \<in> set (key # keys) then specEntry strict res ov k else map_of res k)" for k
  proof (cases "k = key")
    case True
    then show ?thesis using m nk here by simp
  next
    case False
    then show ?thesis using m other [OF False] spec_same [OF False] by simp
  qed
  then have all: "\<forall>k. map_of res' k = (if k \<in> set (key # keys) then specEntry strict res ov k else map_of res k)"
    by blast
  have "mergeKeys strict ov (key # keys) res = Merged (JObj res')"
    using step r by (simp only:)
  then show ?case using all by (intro exI [of _ res'] conjI)
qed

lemma specEntry_absent: "map_of ov k = None \<Longrightarrow> specEntry strict dkvs ov k = map_of dkvs k"
  by (simp add: specEntry_def)

lemma conforms_empty: "conforms (JObj []) (JObj sub)"
  by (simp add: list_all_iff split: prod.splits)

lemma orEmpty_conforms:
  assumes "conforms (JObj dkvs) (JObj ov)" and "map_of ov k = Some (JObj sub)"
  shows "\<exists>dk. orEmpty (map_of dkvs k) = JObj dk \<and> conforms (JObj dk) (JObj sub)
           \<and> (\<forall>dv. map_of dkvs k = Some dv \<longrightarrow> is_object dv \<longrightarrow> dv = JObj dk)"
proof (cases "map_of dkvs k")
  case None
  then show ?thesis using conforms_empty by (simp add: orEmpty_def)
next
  case (Some dv)
  have "(k, JObj sub) \<in> set ov" using assms(2) by (rule map_of_SomeD)
  then have c: "conforms dv (JObj sub)"
    using assms(1) Some by (auto simp: list_all_iff)
  show ?thesis
  proof (cases "is_object dv")
    case True
    then obtain dk where "dv = JObj dk" by (cases dv) simp_all
    then show ?thesis using c Some by (simp add: orEmpty_def)
  next
    case False
    then have "\<not> truthy dv" using c by (cases dv) simp_all
    then show ?thesis using Some False conforms_empty by (simp add: orEmpty_def)
  qed
qed

lemma leaf_over_leaf:
  assumes "conforms (JObj dkvs) (JObj ov)" and "map_of ov k = Some v" and "\<not> is_object v"
      and "map_of dkvs k = Some dv"
  shows "\<not> is_object dv"
proof -
  have "(k, v) \<in> set ov" using assms(2) by (rule map_of_SomeD)
  then have "conforms dv v" using assms(1,4) by (auto simp: list_all_iff)
  then show ?thesis using assms(3) by (cases dv; cases v) simp_all
qed

lemma lookup_leaf: "\<not> is_object v \<Longrightarrow> lookup v p = Some w \<Longrightarrow> p = [] \<and> w = v"
  by (cases p; cases v) simp_all

lemma set_forIn: "set (forIn ov) = set (map fst ov)"
  by (auto simp: forIn_def Let_def)

lemma distinct_forIn: "distinct (forIn ov)"
  by (auto simp: forIn_def Let_def)

lemma plainKeys_key:
  assumes "plainKeys (JObj ov)" and "k \<in> set (map fst ov)"
  shows "k \<notin> set protoNames"
  using assms by (auto simp: list_all_iff)

lemma plainKeys_sub:
  assumes "plainKeys (JObj ov)" and "map_of ov k = Some v"
  shows "plainKeys v"
proof -
  have "(k, v) \<in> set ov" using assms(2) by (rule map_of_SomeD)
  then show ?thesis using assms(1) by (auto simp: list_all_iff)
qed

lemma merge_conforms:
  assumes "conforms (JObj dkvs) (JObj ov)" and "plainKeys (JObj ov)"
  shows "\<exists>r. merge strict (JObj dkvs) ov = Merged (JObj r)
           \<and> (\<forall>k. map_of r k = specEntry strict dkvs ov k)
           \<and> (\<forall>p v. lookup (JObj ov) p = Some v \<longrightarrow> \<not> is_object v \<longrightarrow> lookup (JObj r) p = Some v)
           \<and> (\<forall>p v. lookup (JObj dkvs) p = Some v \<longrightarrow> \<not> is_object v \<longrightarrow> lookup (JObj ov) p = None
                  \<longrightarrow> lookup (JObj r) p = Some v)"
  using assms
proof (induction ov arbitrary: dkvs
        rule: measure_induct_rule [where f = "size_list (size_prod (\<lambda>_. 0) size)"])
  case (less ov)
  note conf = less.prems(1) and plain = less.prems(2)
  have sub: "\<exists>dk rk. orEmpty (map_of dkvs k) = JObj dk
               \<and> (\<forall>dv. map_of dkvs k = Some dv \<longrightarrow> is_object dv \<longrightarrow> dv = JObj dk)
               \<and> merge strict (JObj dk) sub = Merged (JObj rk)
               \<and> (\<forall>p v. lookup (JObj sub) p = Some v \<longrightarrow> \<not> is_object v \<longrightarrow> lookup (JObj rk) p = Some v)
               \<and> (\<forall>p v. lookup (JObj dk) p = Some v \<longrightarrow> \<not> is_object v \<longrightarrow> lookup (JObj sub) p = None
                      \<longrightarrow> lookup (JObj rk) p = Some v)"
    if k: "map_of ov k = Some (JObj sub)" for k sub
  proof -
    from orEmpty_conforms [OF conf k] obtain dk where
      dk: "orEmpty (map_of dkvs k) = JObj dk" "conforms (JObj dk) (JObj sub)"
          "\<forall>dv. map_of dkvs k = Some dv \<longrightarrow> is_object dv \<longrightarrow> dv = JObj dk"
      by blast
    have "size_list (size_prod (\<lambda>_. 0) size) sub < size_list (size_prod (\<lambda>_. 0) size) ov"
      using map_of_size [OF k] by simp
    from less.IH [OF this dk(2) plainKeys_sub [OF plain k]] dk(1,3) show ?thesis by blast
  qed
  have pre: "\<exists>m. merge strict (orEmpty (map_of dkvs k)) sub = Merged m"
    if "k \<in> set (forIn ov)" "map_of ov k = Some (JObj sub)" for k sub
  proof -
    from sub [OF that(2)] obtain dk rk where
      "orEmpty (map_of dkvs k) = JObj dk" "merge strict (JObj dk) sub = Merged (JObj rk)"
      by blast
    then show ?thesis by simp
  qed
  have np: "k \<notin> set protoNames" if "k \<in> set (forIn ov)" for k
    using plainKeys_key [OF plain] that by (simp add: set_forIn)
  from mergeKeys_spec [of "forIn ov" ov strict dkvs, OF distinct_forIn np pre]
  obtain r where r: "mergeKeys strict ov (forIn ov) dkvs = Merged (JObj r)"
    and rk: "\<forall>k. map_of r k = (if k \<in> set (forIn ov) then specEntry strict dkvs ov k
                                  else map_of dkvs k)"
    by blast
  have entry: "map_of r k = specEntry strict dkvs ov k" for k
  proof (cases "k \<in> set (map fst ov)")
    case True
    then show ?thesis using rk by (simp add: set_forIn)
  next
    case False
    then have "map_of ov k = None" by (simp add: map_of_eq_None_iff)
    then show ?thesis using rk False by (simp add: specEntry_absent set_forIn)
  qed
  have own: "''hasOwnProperty'' \<notin> set (map fst ov)"
    using plainKeys_key [OF plain, of "''hasOwnProperty''"] by (auto simp: protoNames_def)
  have m: "merge strict (JObj dkvs) ov = Merged (JObj r)"
  proof (cases "ov = []")
    case True
    then show ?thesis using r by (simp add: forIn_def)
  next
    case False
    then show ?thesis using r own by simp
  qed
  have set_leaf: "lookup (JObj r) p = Some v"
    if "lookup (JObj ov) p = Some v" "\<not> is_object v" for p v
  proof (cases p)
    case Nil
    then show ?thesis using that by auto
  next
    case (Cons k p')
    from that(1) Cons obtain w where w: "map_of ov k = Some w" "lookup w p' = Some v"
      by (auto split: option.splits)
    show ?thesis
    proof (cases "is_object w")
      case False
      with w(2) have "p' = []" "v = w" using lookup_leaf by blast+
      moreover have "map_of r k = Some w" using entry [of k] w(1) False by (simp add: specEntry_def)
      ultimately show ?thesis using Cons by simp
    next
      case True
      then obtain sub where s: "w = JObj sub" by (cases w) simp_all
      from sub [of k sub] w(1) s obtain dk rk' where
        a: "orEmpty (map_of dkvs k) = JObj dk" "merge strict (JObj dk) sub = Merged (JObj rk')"
           "\<forall>p v. lookup (JObj sub) p = Some v \<longrightarrow> \<not> is_object v \<longrightarrow> lookup (JObj rk') p = Some v"
        by blast
      have "map_of r k = Some (JObj rk')"
        using entry [of k] w(1) s a(1,2) by (simp add: specEntry_def)
      moreover have "lookup (JObj rk') p' = Some v" using a(3) w(2) s that(2) by blast
      ultimately show ?thesis using Cons by simp
    qed
  qed
  have default_leaf: "lookup (JObj r) p = Some v"
    if "lookup (JObj dkvs) p = Some v" "\<not> is_object v" "lookup (JObj ov) p = None" for p v
  proof (cases p)
    case Nil
    then show ?thesis using that by auto
  next
    case (Cons k p')
    from that(1) Cons obtain dv where dv: "map_of dkvs k = Some dv" "lookup dv p' = Some v"
      by (auto split: option.splits)
    show ?thesis
    proof (cases "map_of ov k")
      case None
      then have "map_of r k = Some dv" using entry [of k] dv(1) by (simp add: specEntry_def)
      then show ?thesis using Cons dv(2) by simp
    next
      case (Some w)
      have none: "lookup w p' = None" using that(3) Cons Some by simp
      show ?thesis
      proof (cases "is_object w")
        case False
        have "\<not> is_object dv" by (rule leaf_over_leaf [OF conf Some False dv(1)])
        with dv(2) have "p' = []" using lookup_leaf by blast
        then show ?thesis using none by simp
      next
        case True
        then obtain sub where s: "w = JObj sub" by (cases w) simp_all
        from sub [of k sub] Some s obtain dk rk' where
          a: "orEmpty (map_of dkvs k) = JObj dk"
             "\<forall>dv. map_of dkvs k = Some dv \<longrightarrow> is_object dv \<longrightarrow> dv = JObj dk"
             "merge strict (JObj dk) sub = Merged (JObj rk')"
             "\<forall>p v. lookup (JObj dk) p = Some v \<longrightarrow> \<not> is_object v \<longrightarrow> lookup (JObj sub) p = None
                      \<longrightarrow> lookup (JObj rk') p = Some v"
          by blast
        have rk': "map_of r k = Some (JObj rk')"
          using entry [of k] Some s a(1,3) by (simp add: specEntry_def)
        have "is_object dv"
        proof (rule ccontr)
          assume "\<not> is_object dv"
          with dv(2) have "p' = []" using lookup_leaf by blast
          then show False using none by simp
        qed
        then have "dv = JObj dk" using a(2) dv(1) by blast
        then have "lookup (JObj rk') p' = Some v" using a(4) dv(2) that(2) none s by blast
        then show ?thesis using Cons rk' by simp
      qed
    qed
  qed
  show ?case using m entry set_leaf default_leaf by blast
qed

lemma map_of_filter_map:
  "map_of (filter (\<lambda>(k, v). Q k) (map (\<lambda>(k, v). (k, g v)) kvs)) k
     = (if Q k then map_option g (map_of kvs k) else None)"
  by (induction kvs) (auto)

lemma map_of_through:
  "map_of (filter (\<lambda>(k, v). map_of kvs k \<noteq> Some CUndefined) (map (\<lambda>(k, v). (k, throughJSON v)) kvs)) k
     = (case map_of kvs k of None \<Rightarrow> None | Some v \<Rightarrow> if v = CUndefined then None else Some (throughJSON v))"
  using map_of_filter_map [of "\<lambda>k. map_of kvs k \<noteq> Some CUndefined" throughJSON kvs k]
  by (auto split: option.splits)

lemma through_not_object: "\<not> is_objectC c \<Longrightarrow> \<not> is_object (throughJSON c)"
  by (cases c) simp_all

lemma lookup_through:
  "c \<noteq> CUndefined \<Longrightarrow>
   lookup (throughJSON c) p
     = (case lookupC c p of None \<Rightarrow> None | Some v \<Rightarrow> if v = CUndefined then None else Some (throughJSON v))"
proof (induction p arbitrary: c)
  case Nil
  then show ?case by simp
next
  case (Cons k p)
  show ?case
  proof (cases c)
    case (CObj kvs)
    show ?thesis
    proof (cases "map_of kvs k")
      case None
      then show ?thesis using CObj by (simp add: map_of_through)
    next
      case (Some v)
      show ?thesis
      proof (cases "v = CUndefined")
        case True
        then show ?thesis using CObj Some by (cases p) (simp_all add: map_of_through)
      next
        case False
        then show ?thesis using CObj Some Cons.IH [OF False] by (simp add: map_of_through)
      qed
    qed
  qed (simp_all)
qed

lemma carried_exact: "carried v \<Longrightarrow> ofJson (throughJSON v) = v"
proof (induction v)
  case (CArr xs)
  then show ?case by (auto simp: list_all_iff intro!: map_idI)
next
  case (CObj kvs)
  have nundef: "map_of kvs k \<noteq> Some CUndefined" for k
  proof
    assume "map_of kvs k = Some CUndefined"
    then have "(k, CUndefined) \<in> set kvs" by (rule map_of_SomeD)
    then show False using CObj.prems by (auto simp: list_all_iff)
  qed
  have nu: "filter (\<lambda>(k, v). map_of kvs k \<noteq> Some CUndefined) (map (\<lambda>(k, v). (k, throughJSON v)) kvs)
              = map (\<lambda>(k, v). (k, throughJSON v)) kvs"
    by (rule filter_True) (auto simp: nundef)
  have "map (\<lambda>(k, v). (k, ofJson v)) (map (\<lambda>(k, v). (k, throughJSON v)) kvs) = kvs"
  proof (rule map_idI [of kvs "(\<lambda>(k, v). (k, ofJson v)) \<circ> (\<lambda>(k, v). (k, throughJSON v))", simplified map_map [symmetric]])
    fix x assume x: "x \<in> set kvs"
    obtain k v where kv: "x = (k, v)" by (cases x)
    have "carried v" using CObj.prems x kv by (auto simp: list_all_iff)
    moreover have "v \<in> Basic_BNFs.snds x" using kv by simp
    ultimately have "ofJson (throughJSON v) = v" using CObj.IH [OF x] by blast
    then show "((\<lambda>(k, v). (k, ofJson v)) \<circ> (\<lambda>(k, v). (k, throughJSON v))) x = x" using kv by simp
  qed
  then show ?case using nu by simp
qed simp_all

text \<open>
  C7, as the code has it. Take a configuration object, the tree \<open>saved\<close> that
  \<^verbatim>\<open>JSON.parse(JSON.stringify(config))\<close> returns for it, and the defaults. When the saved
  tree is shaped like the defaults and its keys are plain, merging it into the
  defaults, with \<^verbatim>\<open>Config.merge\<close> or the dialog's \<^verbatim>\<open>deepMerge\<close>, succeeds, and in the
  result: every leaf the configuration sets (scalar, array or \<^verbatim>\<open>null\<close>, not
  \<^verbatim>\<open>undefined\<close>) is read under its path as JSON carries it, which is the leaf itself
  unless it holds \<^verbatim>\<open>NaN\<close>, an infinity or \<^verbatim>\<open>undefined\<close>; every leaf of the defaults
  whose path the configuration lacks, or holds \<^verbatim>\<open>undefined\<close> at, is read with its
  default; and under each key the overlay wins on a leaf, a plain object is merged
  recursively into the default entry, and an absent key keeps the default.
\<close>

theorem merge_round_trip:
  assumes "roundTrip (CObj current) = Some (JObj saved)"
      and "conforms (JObj defaults) (JObj saved)" and "plainKeys (JObj saved)"
  shows "\<exists>r. merge strict (JObj defaults) saved = Merged (JObj r)
           \<and> (\<forall>p v. lookupC (CObj current) p = Some v \<longrightarrow> \<not> is_objectC v \<longrightarrow> v \<noteq> CUndefined
                  \<longrightarrow> lookup (JObj r) p = Some (throughJSON v) \<and> (carried v \<longrightarrow> ofJson (throughJSON v) = v))
           \<and> (\<forall>p v. lookup (JObj defaults) p = Some v \<longrightarrow> \<not> is_object v
                  \<longrightarrow> (lookupC (CObj current) p = None \<or> lookupC (CObj current) p = Some CUndefined)
                  \<longrightarrow> lookup (JObj r) p = Some v)
           \<and> (\<forall>k. map_of r k = specEntry strict defaults saved k)"
proof -
  from merge_conforms [OF assms(2,3), of strict] obtain r where
    m: "merge strict (JObj defaults) saved = Merged (JObj r)"
    and e: "\<forall>k. map_of r k = specEntry strict defaults saved k"
    and s: "\<And>p v. lookup (JObj saved) p = Some v \<Longrightarrow> \<not> is_object v \<Longrightarrow> lookup (JObj r) p = Some v"
    and d: "\<And>p v. lookup (JObj defaults) p = Some v \<Longrightarrow> \<not> is_object v \<Longrightarrow> lookup (JObj saved) p = None
                  \<Longrightarrow> lookup (JObj r) p = Some v"
    by blast
  have lk: "lookup (JObj saved) p
     = (case lookupC (CObj current) p of None \<Rightarrow> None
        | Some v \<Rightarrow> if v = CUndefined then None else Some (throughJSON v))" for p
    using lookup_through [of "CObj current" p] assms(1) by (simp add: roundTrip_def)
  have a: "lookup (JObj r) p = Some (throughJSON v) \<and> (carried v \<longrightarrow> ofJson (throughJSON v) = v)"
    if "lookupC (CObj current) p = Some v" "\<not> is_objectC v" "v \<noteq> CUndefined" for p v
  proof -
    have "lookup (JObj saved) p = Some (throughJSON v)" using lk [of p] that(1,3) by simp
    then have "lookup (JObj r) p = Some (throughJSON v)"
      using s through_not_object [OF that(2)] by blast
    then show ?thesis using carried_exact by blast
  qed
  have b: "lookup (JObj r) p = Some v"
    if "lookup (JObj defaults) p = Some v" "\<not> is_object v"
       "lookupC (CObj current) p = None \<or> lookupC (CObj current) p = Some CUndefined" for p v
  proof -
    have "lookup (JObj saved) p = None" using lk [of p] that(3) by auto
    then show ?thesis using d that(1,2) by blast
  qed
  show ?thesis using m e a b by blast
qed

theorem merge_round_trip_witness:
  "roundTrip (CObj savedConfig) = Some (JObj savedJson)
   \<and> conforms (JObj defaultsEntries) (JObj savedJson) \<and> plainKeys (JObj savedJson)
   \<and> (\<exists>r. merge False (JObj defaultsEntries) savedJson = Merged (JObj r)
          \<and> lookup (JObj r) [''title'', ''text''] = Some (JStr ''Sales'')
          \<and> lookup (JObj r) [''yAxisLeft'', ''max''] = Some (JNum 0)
          \<and> lookup (JObj r) [''barWidth''] = Some (JNum 50)
          \<and> lookup (JObj r) [''title'', ''show''] = Some (JBool True)
          \<and> lookup (JObj r) [''yAxisLeft'', ''format''] = Some (JStr ''auto'')
          \<and> lookup (JObj r) [''barPadding''] = Some (JNum 0.2)
          \<and> lookup (JObj r) [''barStyle''] = Some (JStr ''grouped''))"
proof -
  have t: "roundTrip (CObj savedConfig) = Some (JObj savedJson)"
    by (simp add: roundTrip_def savedConfig_def savedJson_def)
  have c: "conforms (JObj defaultsEntries) (JObj savedJson)"
    by (simp add: defaultsEntries_def savedJson_def)
  have k: "plainKeys (JObj savedJson)"
    by (simp add: savedJson_def protoNames_def)
  from merge_round_trip [OF t c k, of False] obtain r where
    m: "merge False (JObj defaultsEntries) savedJson = Merged (JObj r)"
    and s: "\<And>p v. lookupC (CObj savedConfig) p = Some v \<Longrightarrow> \<not> is_objectC v \<Longrightarrow> v \<noteq> CUndefined
              \<Longrightarrow> lookup (JObj r) p = Some (throughJSON v)"
    and d: "\<And>p v. lookup (JObj defaultsEntries) p = Some v \<Longrightarrow> \<not> is_object v
              \<Longrightarrow> lookupC (CObj savedConfig) p = None \<or> lookupC (CObj savedConfig) p = Some CUndefined
              \<Longrightarrow> lookup (JObj r) p = Some v"
    by blast
  have s1: "lookup (JObj r) [''title'', ''text''] = Some (JStr ''Sales'')"
    using s [of "[''title'', ''text'']" "CStr ''Sales''"] by (simp add: savedConfig_def)
  have s2: "lookup (JObj r) [''yAxisLeft'', ''max''] = Some (JNum 0)"
    using s [of "[''yAxisLeft'', ''max'']" "CNum 0"] by (simp add: savedConfig_def)
  have s3: "lookup (JObj r) [''barWidth''] = Some (JNum 50)"
    using s [of "[''barWidth'']" "CNum 50"] by (simp add: savedConfig_def)
  have d1: "lookup (JObj r) [''title'', ''show''] = Some (JBool True)"
    by (rule d) (simp_all add: savedConfig_def defaultsEntries_def)
  have d2: "lookup (JObj r) [''yAxisLeft'', ''format''] = Some (JStr ''auto'')"
    by (rule d) (simp_all add: savedConfig_def defaultsEntries_def)
  have d3: "lookup (JObj r) [''barPadding''] = Some (JNum 0.2)"
    by (rule d) (simp_all add: savedConfig_def defaultsEntries_def)
  have d4: "lookup (JObj r) [''barStyle''] = Some (JStr ''grouped'')"
    by (rule d) (simp_all add: savedConfig_def defaultsEntries_def)
  show ?thesis using t c k m s1 s2 s3 d1 d2 d3 d4 by blast
qed

text \<open>
  C7 as stated fails in four ways.
  A leaf that JSON does not carry is not reproduced: \<^verbatim>\<open>bar1.borderWidth = NaN\<close>, which
  the dialog writes for an empty input (\<^verbatim>\<open>parseInt('')\<close>), comes back as \<^verbatim>\<open>null\<close>.
  Where the saved tree holds \<^verbatim>\<open>null\<close> for \<^verbatim>\<open>title\<close>, the leaf \<^verbatim>\<open>title.text\<close> is absent from
  it, has the default \<^verbatim>\<open>'Combo Chart'\<close>, and is absent from the merge too (the overlay's
  \<^verbatim>\<open>null\<close> wins). Where it holds an object for \<^verbatim>\<open>barPadding\<close>, whose default is the
  number 0.2, the leaf \<^verbatim>\<open>barPadding.inner\<close> it sets is lost by \<^verbatim>\<open>Config.merge\<close>, and the
  dialog's \<^verbatim>\<open>deepMerge\<close> throws. Where it holds an object under the key
  \<^verbatim>\<open>constructor\<close>, both merges throw.
\<close>

theorem merge_round_trip_counterexample:
  "lookupC (CObj configNaN) [''bar1'', ''borderWidth''] = Some CNaN
   \<and> roundTrip (CObj configNaN) = Some (JObj savedNaN)
   \<and> (case merge False (JObj defaultsEntries) savedNaN of
         Merged r \<Rightarrow> lookup r [''bar1'', ''borderWidth''] = Some JNull
       | _ \<Rightarrow> False)
   \<and> merge True (JObj defaultsEntries) savedNaN = merge False (JObj defaultsEntries) savedNaN
   \<and> lookup (JObj defaultsEntries) [''title'', ''text''] = Some (JStr ''Combo Chart'')
   \<and> lookup (JObj savedNullTitle) [''title'', ''text''] = None
   \<and> (case merge False (JObj defaultsEntries) savedNullTitle of
         Merged r \<Rightarrow> lookup r [''title'', ''text''] = None \<and> lookup r [''title''] = Some JNull
       | _ \<Rightarrow> False)
   \<and> merge True (JObj defaultsEntries) savedNullTitle = merge False (JObj defaultsEntries) savedNullTitle
   \<and> lookup (JObj savedObjectPadding) [''barPadding'', ''inner''] = Some (JNum 0.1)
   \<and> (case merge False (JObj defaultsEntries) savedObjectPadding of
         Merged r \<Rightarrow> lookup r [''barPadding'', ''inner''] = None \<and> lookup r [''barPadding''] = Some (JNum 0.2)
       | _ \<Rightarrow> False)
   \<and> merge True (JObj defaultsEntries) savedObjectPadding = Throws ''cannot create property on a primitive''
   \<and> merge False (JObj defaultsEntries) savedConstructor = Throws ''undefined is not valid JSON''
   \<and> merge True (JObj defaultsEntries) savedConstructor = Throws ''undefined is not valid JSON''"
  by (simp add: defaultsEntries_def configNaN_def savedNaN_def savedNullTitle_def savedObjectPadding_def
        savedConstructor_def orEmpty_def assign_def inherited_def protoNames_def arrayIndex_def is_digit_def
        forIn_def indexKey_def Let_def roundTrip_def)

end
